theory Spec2Isabelle
  imports Complex_Main "HOL-Library.AList"
begin

section \<open>JavaScript values\<close>

text \<open>
  The inventory API server (\<^verbatim>\<open>apiserver.js\<close>) works on dynamically typed values: the
  parsed request body, the parsed \<^verbatim>\<open>items.json\<close> document and the items it builds.
  A number is an IEEE double: a finite value (a rational; \<^verbatim>\<open>-0\<close> is identified with
  \<^verbatim>\<open>0\<close>), one of the two infinities (which \<^verbatim>\<open>JSON.parse\<close> returns for a literal
  such as \<^verbatim>\<open>1e999\<close>), or NaN.
\<close>

datatype jsnum = Fin rat | PosInf | NegInf | NaN

datatype jsval =
    Undefined
  | Null
  | Bool bool
  | Num jsnum
  | Str string
  | Arr "jsval list"
  | Obj "(string \<times> jsval) list"

text \<open>
  Exceptions are values. \<^verbatim>\<open>SyntaxError\<close> is what \<^verbatim>\<open>JSON.parse\<close> throws,
  \<^verbatim>\<open>TypeError\<close> what a property read on \<^verbatim>\<open>null\<close> or a call of a missing method
  throws (with the message Node prints), \<^verbatim>\<open>Error\<close> what \<^verbatim>\<open>writeItems\<close> throws.
\<close>

datatype js_error = SyntaxError | TypeError string | Error string

fun error_message :: "js_error \<Rightarrow> string" where
  "error_message SyntaxError = ''Unexpected token in JSON''"
| "error_message (TypeError m) = m"
| "error_message (Error m) = m"

fun isNaN :: "jsnum \<Rightarrow> bool" where
  "isNaN NaN = True"
| "isNaN _ = False"

fun is_finite :: "jsnum \<Rightarrow> bool" where
  "is_finite (Fin q) = True"
| "is_finite _ = False"

text \<open>\<^verbatim>\<open>!v\<close> is true for undefined, null, false, 0, NaN and the empty string only.\<close>

fun truthy :: "jsval \<Rightarrow> bool" where
  "truthy Undefined = False"
| "truthy Null = False"
| "truthy (Bool b) = b"
| "truthy (Num n) = (n \<noteq> NaN \<and> n \<noteq> Fin 0)"
| "truthy (Str s) = (s \<noteq> [])"
| "truthy (Arr xs) = True"
| "truthy (Obj kvs) = True"

text \<open>
  \<^verbatim>\<open>v.k\<close> for the keys the server reads (\<^verbatim>\<open>id\<close>, \<^verbatim>\<open>name\<close>, \<^verbatim>\<open>price\<close>,
  \<^verbatim>\<open>size\<close>): a TypeError on null and undefined, the own property of an object, and
  undefined on every other value (no prototype defines one of these four keys).
\<close>

fun get_prop :: "jsval \<Rightarrow> string \<Rightarrow> js_error + jsval" where
  "get_prop Undefined k =
     Inl (TypeError (''Cannot read properties of undefined (reading '' @ [CHR 0x27] @ k @ [CHR 0x27] @ '')''))"
| "get_prop Null k =
     Inl (TypeError (''Cannot read properties of null (reading '' @ [CHR 0x27] @ k @ [CHR 0x27] @ '')''))"
| "get_prop (Obj kvs) k = Inr (case map_of kvs k of None \<Rightarrow> Undefined | Some v \<Rightarrow> v)"
| "get_prop v k = Inr Undefined"

text \<open>\<^verbatim>\<open>o.k = v\<close> on an object: replaces the property in place or appends it.\<close>

fun set_prop :: "jsval \<Rightarrow> string \<Rightarrow> jsval \<Rightarrow> jsval" where
  "set_prop (Obj kvs) k v = Obj (AList.update k v kvs)"
| "set_prop w k v = w"

definition lower_char :: "char \<Rightarrow> char" where
  "lower_char c =
     (case map_of (zip ''ABCDEFGHIJKLMNOPQRSTUVWXYZ'' ''abcdefghijklmnopqrstuvwxyz'') c of
        Some l \<Rightarrow> l
      | None \<Rightarrow> c)"

text \<open>
  \<^verbatim>\<open>v.toLowerCase()\<close>, where \<^verbatim>\<open>e\<close> is the expression that \<^verbatim>\<open>v\<close> is the value of: only
  a string has the method. Strings are byte strings here and only the ASCII letters
  change case.
\<close>

fun toLowerCase :: "string \<Rightarrow> jsval \<Rightarrow> js_error + string" where
  "toLowerCase e (Str s) = Inr (map lower_char s)"
| "toLowerCase e Undefined =
     Inl (TypeError ''Cannot read properties of undefined (reading 'toLowerCase')'')"
| "toLowerCase e Null =
     Inl (TypeError ''Cannot read properties of null (reading 'toLowerCase')'')"
| "toLowerCase e v = Inl (TypeError (e @ ''.toLowerCase is not a function''))"

subsection \<open>Coercions of the runtime\<close>

text \<open>
  \<^verbatim>\<open>parseFloat\<close>, \<^verbatim>\<open>isFinite\<close> and template literals coerce their argument. What
  the runtime does on a string (\<^verbatim>\<open>parseFloat\<close> and \<^verbatim>\<open>Number\<close> of a string) and how it
  prints a number are parameters of the model; the coercion of every other value is
  written out as ECMAScript defines it. A coercion can throw, so its result is an error
  or a value; \<^verbatim>\<open>thenE\<close> continues with the value and passes the error on.
\<close>

record runtime =
  str_parseFloat :: "string \<Rightarrow> jsnum"
  str_toNumber :: "string \<Rightarrow> jsnum"
  num_toString :: "jsnum \<Rightarrow> string"

definition thenE :: "js_error + 'a \<Rightarrow> ('a \<Rightarrow> js_error + 'b) \<Rightarrow> js_error + 'b" where
  "thenE m f = (case m of Inl e \<Rightarrow> Inl e | Inr x \<Rightarrow> f x)"

text \<open>The results of a list of computations, or the first error among them.\<close>

fun first_error :: "(js_error + 'a) list \<Rightarrow> js_error + 'a list" where
  "first_error [] = Inr []"
| "first_error (m # ms) = thenE m (\<lambda>x. thenE (first_error ms) (\<lambda>xs. Inr (x # xs)))"

fun join_comma :: "string list \<Rightarrow> string" where
  "join_comma [] = []"
| "join_comma [s] = s"
| "join_comma (s # t # ss) = s @ '','' @ join_comma (t # ss)"

text \<open>
  \<^verbatim>\<open>String(v)\<close>. An array prints its elements from left to right, joined by commas,
  null and undefined as the empty string. An object is converted by its \<^verbatim>\<open>toString\<close>
  and \<^verbatim>\<open>valueOf\<close> methods: the inherited ones give \<^verbatim>\<open>[object Object]\<close>, but an own
  property named \<^verbatim>\<open>toString\<close> hides the inherited method, and in a parsed JSON value
  it is never a function, so that the conversion throws a TypeError (an own property
  named \<^verbatim>\<open>valueOf\<close> only hides a method that does not return a primitive value).
\<close>

fun toString :: "runtime \<Rightarrow> jsval \<Rightarrow> js_error + string" where
  "toString rt Undefined = Inr ''undefined''"
| "toString rt Null = Inr ''null''"
| "toString rt (Bool b) = Inr (if b then ''true'' else ''false'')"
| "toString rt (Num n) = Inr (num_toString rt n)"
| "toString rt (Str s) = Inr s"
| "toString rt (Arr xs) =
     thenE (first_error
              (map (\<lambda>x. if x = Null \<or> x = Undefined then Inr [] else toString rt x) xs))
       (\<lambda>ss. Inr (join_comma ss))"
| "toString rt (Obj kvs) =
     (if map_of kvs ''toString'' = None then Inr ''[object Object]''
      else Inl (TypeError ''Cannot convert object to primitive value''))"

text \<open>
  \<^verbatim>\<open>parseFloat(v)\<close> parses the longest prefix of \<^verbatim>\<open>String(v)\<close> that is a decimal
  literal. On a number that gives the number back; undefined, null, a boolean and an
  object that can be converted print as a word that has no such prefix.
\<close>

definition parseFloat :: "runtime \<Rightarrow> jsval \<Rightarrow> js_error + jsnum" where
  "parseFloat rt v =
     (case v of
        Num n \<Rightarrow> Inr n
      | Str s \<Rightarrow> Inr (str_parseFloat rt s)
      | Arr xs \<Rightarrow> thenE (toString rt (Arr xs)) (\<lambda>s. Inr (str_parseFloat rt s))
      | Obj kvs \<Rightarrow> thenE (toString rt (Obj kvs)) (\<lambda>s. Inr NaN)
      | _ \<Rightarrow> Inr NaN)"

text \<open>
  \<^verbatim>\<open>Number(v)\<close>, which \<^verbatim>\<open>isFinite(v)\<close> applies to its argument. An array or an object
  is first converted to a primitive value, which is its string.
\<close>

definition toNumber :: "runtime \<Rightarrow> jsval \<Rightarrow> js_error + jsnum" where
  "toNumber rt v =
     (case v of
        Undefined \<Rightarrow> Inr NaN
      | Null \<Rightarrow> Inr (Fin 0)
      | Bool b \<Rightarrow> Inr (Fin (if b then 1 else 0))
      | Num n \<Rightarrow> Inr n
      | Str s \<Rightarrow> Inr (str_toNumber rt s)
      | Arr xs \<Rightarrow> thenE (toString rt (Arr xs)) (\<lambda>s. Inr (str_toNumber rt s))
      | Obj kvs \<Rightarrow> thenE (toString rt (Obj kvs)) (\<lambda>s. Inr NaN))"

definition isFinite :: "runtime \<Rightarrow> jsval \<Rightarrow> js_error + bool" where
  "isFinite rt v = thenE (toNumber rt v) (\<lambda>n. Inr (is_finite n))"

text \<open>
  What ECMAScript guarantees of the two string conversions and the server relies on:
  \<^verbatim>\<open>parseFloat\<close> reads the empty string as NaN, and a string that \<^verbatim>\<open>Number\<close> reads
  as a finite number is empty, a decimal literal (then \<^verbatim>\<open>parseFloat\<close> gives the same
  number) or a \<^verbatim>\<open>0x\<close>, \<^verbatim>\<open>0o\<close> or \<^verbatim>\<open>0b\<close> literal (then \<^verbatim>\<open>parseFloat\<close> gives 0).
\<close>

definition runtime_ok :: "runtime \<Rightarrow> bool" where
  "runtime_ok rt =
     (isNaN (str_parseFloat rt [])
      \<and> (\<forall>s. is_finite (str_toNumber rt s) \<and> \<not> isNaN (str_parseFloat rt s)
             \<longrightarrow> is_finite (str_parseFloat rt s)))"

subsection \<open>\<^verbatim>\<open>JSON.stringify\<close>\<close>

text \<open>
  The server sends and stores values as JSON text. \<^verbatim>\<open>JSON_stringify v\<close> is the value
  that the text \<^verbatim>\<open>JSON.stringify(v)\<close> denotes: a number that is not finite becomes
  null, an undefined array element becomes null, and a property whose value is
  undefined is left out.
\<close>

fun drop_undefined :: "(string \<times> jsval) list \<Rightarrow> (string \<times> jsval) list" where
  "drop_undefined [] = []"
| "drop_undefined ((k, v) # kvs) =
     (if v = Undefined then drop_undefined (filter (\<lambda>p. fst p \<noteq> k) kvs)
      else (k, v) # drop_undefined kvs)"

definition undefined_to_null :: "jsval \<Rightarrow> jsval" where
  "undefined_to_null v = (if v = Undefined then Null else v)"

primrec JSON_stringify :: "jsval \<Rightarrow> jsval" where
  "JSON_stringify Undefined = Undefined"
| "JSON_stringify Null = Null"
| "JSON_stringify (Bool b) = Bool b"
| "JSON_stringify (Num n) = (if is_finite n then Num n else Null)"
| "JSON_stringify (Str s) = Str s"
| "JSON_stringify (Arr xs) = Arr (map undefined_to_null (map JSON_stringify xs))"
| "JSON_stringify (Obj kvs) = Obj (drop_undefined (map (map_prod id JSON_stringify) kvs))"

section \<open>The store: \<^verbatim>\<open>items.json\<close>\<close>

text \<open>
  The document on disk is kept as what \<^verbatim>\<open>JSON.parse\<close> makes of its text: the text is
  empty, it is not JSON (\<^verbatim>\<open>JSON.parse\<close> throws), or it denotes a value. The file
  system state is the document, if the file exists, and the number of writes done so
  far. A read or a write of the file system can fail; whether it does is an input of
  every request. A failed write leaves the document as it was.
\<close>

datatype document = EmptyText | Malformed | Json jsval

record fs =
  doc :: "document option"
  writes :: nat

record io =
  read_ok :: bool
  init_ok :: bool
  write_ok :: bool

definition writeFile :: "document \<Rightarrow> fs \<Rightarrow> fs" where
  "writeFile d s = s\<lparr>doc := Some d, writes := Suc (writes s)\<rparr>"

text \<open>The body of the \<^verbatim>\<open>try\<close> block of \<^verbatim>\<open>readItems\<close>.\<close>

definition readItems_try :: "io \<Rightarrow> fs \<Rightarrow> (js_error + jsval) \<times> fs" where
  "readItems_try io s =
     (case doc s of
        None \<Rightarrow>
          if init_ok io then (Inr (Arr []), writeFile (Json (Arr [])) s)
          else (Inl (Error ''writeFile failed''), s)
      | Some d \<Rightarrow>
          if \<not> read_ok io then (Inl (Error ''readFile failed''), s)
          else (case d of
                  EmptyText \<Rightarrow> (Inr (Arr []), s)
                | Malformed \<Rightarrow> (Inl SyntaxError, s)
                | Json v \<Rightarrow> (Inr v, s)))"

text \<open>\<^verbatim>\<open>readItems\<close>: the \<^verbatim>\<open>catch\<close> turns every error into an empty array.\<close>

definition readItems :: "io \<Rightarrow> fs \<Rightarrow> jsval \<times> fs" where
  "readItems io s =
     (case readItems_try io s of
        (Inl e, s') \<Rightarrow> (Arr [], s')
      | (Inr v, s') \<Rightarrow> (v, s'))"

definition writeItems :: "io \<Rightarrow> jsval \<Rightarrow> fs \<Rightarrow> js_error + fs" where
  "writeItems io items s =
     (if write_ok io then Inr (writeFile (Json (JSON_stringify items)) s)
      else Inl (Error ''Failed to persist items.''))"

section \<open>Responses\<close>

text \<open>
  A response is the status code and the envelope \<^verbatim>\<open>{success, message, data}\<close> as the
  client parses it; \<^verbatim>\<open>data\<close> defaults to null.
\<close>

record response =
  status :: nat
  success :: bool
  message :: string
  data :: jsval

definition sendJsonResponse :: "nat \<Rightarrow> bool \<Rightarrow> string \<Rightarrow> jsval \<Rightarrow> response" where
  "sendJsonResponse statusCode ok msg d =
     \<lparr>status = statusCode, success = ok, message = msg,
      data = JSON_stringify (if d = Undefined then Null else d)\<rparr>"

section \<open>Array methods on the loaded collection\<close>

text \<open>
  \<^verbatim>\<open>items.find\<close>, \<^verbatim>\<open>items.findIndex\<close>, \<^verbatim>\<open>items.filter\<close> and \<^verbatim>\<open>items.push\<close> exist
  on an array only; on any other value that \<^verbatim>\<open>readItems\<close> returned the call throws.
  \<^verbatim>\<open>elements p m\<close> gives the elements of an array, where \<^verbatim>\<open>p\<close> is the first property
  the handler reads of \<^verbatim>\<open>items\<close> and \<^verbatim>\<open>m\<close> the first method it calls.
\<close>

fun elements :: "string \<Rightarrow> string \<Rightarrow> jsval \<Rightarrow> js_error + jsval list" where
  "elements p m (Arr xs) = Inr xs"
| "elements p m Null =
     Inl (TypeError (''Cannot read properties of null (reading '' @ [CHR 0x27] @ p @ [CHR 0x27] @ '')''))"
| "elements p m Undefined =
     Inl (TypeError (''Cannot read properties of undefined (reading '' @ [CHR 0x27] @ p @ [CHR 0x27] @ '')''))"
| "elements p m v = Inl (TypeError (''items.'' @ m @ '' is not a function''))"

text \<open>\<^verbatim>\<open>i.id === itemId\<close>\<close>

definition has_id :: "string \<Rightarrow> jsval \<Rightarrow> js_error + bool" where
  "has_id itemId i = thenE (get_prop i ''id'') (\<lambda>v. Inr (v = Str itemId))"

text \<open>\<^verbatim>\<open>items.find(i => i.id === itemId)\<close>; \<^verbatim>\<open>None\<close> is undefined.\<close>

fun find_by_id :: "string \<Rightarrow> jsval list \<Rightarrow> js_error + jsval option" where
  "find_by_id itemId [] = Inr None"
| "find_by_id itemId (i # rest) =
     thenE (has_id itemId i) (\<lambda>b. if b then Inr (Some i) else find_by_id itemId rest)"

text \<open>\<^verbatim>\<open>items.findIndex(i => i.id === itemId)\<close>; \<^verbatim>\<open>None\<close> is -1.\<close>

fun findIndex :: "string \<Rightarrow> jsval list \<Rightarrow> js_error + nat option" where
  "findIndex itemId [] = Inr None"
| "findIndex itemId (i # rest) =
     thenE (has_id itemId i) (\<lambda>b. if b then Inr (Some 0)
        else thenE (findIndex itemId rest) (\<lambda>r. Inr (map_option Suc r)))"

text \<open>\<^verbatim>\<open>items.filter(i => i.id !== itemId)\<close>\<close>

fun filter_other :: "string \<Rightarrow> jsval list \<Rightarrow> js_error + jsval list" where
  "filter_other itemId [] = Inr []"
| "filter_other itemId (i # rest) =
     thenE (has_id itemId i) (\<lambda>b.
       thenE (filter_other itemId rest) (\<lambda>r. Inr (if b then r else i # r)))"

section \<open>The handlers\<close>

text \<open>
  Every handler takes the file system state and returns the response with the new
  state. The request body is given by what \<^verbatim>\<open>JSON.parse\<close> makes of it: \<^verbatim>\<open>None\<close>
  when it throws a SyntaxError.
\<close>

definition JSON_parse :: "jsval option \<Rightarrow> js_error + jsval" where
  "JSON_parse b = (case b of None \<Rightarrow> Inl SyntaxError | Some v \<Rightarrow> Inr v)"

definition validSizes :: "string list" where
  "validSizes = [''s'', ''m'', ''l'']"

definition not_found :: "string \<Rightarrow> response" where
  "not_found itemId =
     sendJsonResponse 404 False (''Item with ID '' @ itemId @ '' not found.'') Null"

text \<open>The answer to an invalid size, where \<^verbatim>\<open>t\<close> is the size as the template prints it.\<close>

definition invalid_size :: "string \<Rightarrow> response" where
  "invalid_size t =
     sendJsonResponse 400 False
       (''Invalid size '' @ [CHR 0x27] @ t @ [CHR 0x27] @ ''. Must be 's', 'm', or 'l'.'') Null"

text \<open>
  \<^verbatim>\<open>isNaN(parseFloat(price)) || !isFinite(price)\<close>: \<^verbatim>\<open>isFinite\<close> is called only when
  the first operand is false.
\<close>

definition price_invalid :: "runtime \<Rightarrow> jsval \<Rightarrow> js_error + bool" where
  "price_invalid rt price =
     thenE (parseFloat rt price) (\<lambda>n.
       if isNaN n then Inr True
       else thenE (isFinite rt price) (\<lambda>fin. Inr (\<not> fin)))"

definition invalid_price :: response where
  "invalid_price = sendJsonResponse 400 False ''Price must be a valid number.'' Null"

subsection \<open>GET /items\<close>

text \<open>Nothing in the \<^verbatim>\<open>try\<close> block throws, so the \<^verbatim>\<open>catch\<close> is never entered.\<close>

definition handleGetAllItems :: "io \<Rightarrow> fs \<Rightarrow> response \<times> fs" where
  "handleGetAllItems io s =
     (case readItems io s of
        (items, s') \<Rightarrow>
          (sendJsonResponse 200 True ''Successfully retrieved all items.'' items, s'))"

subsection \<open>GET /items/:id\<close>

definition getOneItem_try :: "io \<Rightarrow> string \<Rightarrow> fs \<Rightarrow> (js_error + response) \<times> fs" where
  "getOneItem_try io itemId s =
     (case readItems io s of
        (items, s') \<Rightarrow>
          (thenE (elements ''find'' ''find'' items) (\<lambda>xs.
           thenE (find_by_id itemId xs) (\<lambda>item.
             case item of
               Some i \<Rightarrow>
                 if truthy i then Inr (sendJsonResponse 200 True ''Successfully retrieved item.'' i)
                 else Inr (not_found itemId)
             | None \<Rightarrow> Inr (not_found itemId))), s'))"

definition handleGetOneItem :: "io \<Rightarrow> string \<Rightarrow> fs \<Rightarrow> response \<times> fs" where
  "handleGetOneItem io itemId s =
     (case getOneItem_try io itemId s of
        (Inr r, s') \<Rightarrow> (r, s')
      | (Inl e, s') \<Rightarrow>
          (sendJsonResponse 500 False ''Internal server error while retrieving item.'' Null, s'))"

subsection \<open>POST /items\<close>

text \<open>
  The checks of the payload (the three \<^verbatim>\<open>if\<close>s that answer 400): the result is the
  400 response of the first check that fails, or else the name, the price as a number
  and the size in lower case, which go into the new item. (The source computes
  \<^verbatim>\<open>parseFloat(newItemData.price)\<close> for the new item after \<^verbatim>\<open>readItems\<close>; it has
  the value it had in the check and does not throw there.)
\<close>

definition validate_create ::
  "runtime \<Rightarrow> jsval \<Rightarrow> js_error + (response + jsval \<times> jsnum \<times> string)" where
  "validate_create rt newItemData =
     thenE (get_prop newItemData ''name'') (\<lambda>name.
     thenE (get_prop newItemData ''price'') (\<lambda>price.
     thenE (get_prop newItemData ''size'') (\<lambda>sz.
       if \<not> truthy name \<or> \<not> truthy price \<or> \<not> truthy sz then
         Inr (Inl (sendJsonResponse 400 False
           ''Missing required fields: name, price, and size are mandatory.'' Null))
       else
     thenE (toLowerCase ''newItemData.size'' sz) (\<lambda>lsz.
       if lsz \<notin> set validSizes then
         thenE (toString rt sz) (\<lambda>t. Inr (Inl (invalid_size t)))
       else
     thenE (price_invalid rt price) (\<lambda>bad.
       if bad then Inr (Inl invalid_price)
       else
     thenE (parseFloat rt price) (\<lambda>n. Inr (Inr (name, n, lsz))))))))"

text \<open>
  The object \<^verbatim>\<open>newItem\<close>. \<^verbatim>\<open>uuid\<close> is the string that \<^verbatim>\<open>randomUUID()\<close> returns
  in this request.
\<close>

definition newItem :: "string \<Rightarrow> jsval \<Rightarrow> jsnum \<Rightarrow> string \<Rightarrow> jsval" where
  "newItem uuid name price lsz =
     Obj [(''id'', Str uuid), (''name'', name), (''price'', Num price), (''size'', Str lsz)]"

text \<open>The body of the \<^verbatim>\<open>try\<close> block.\<close>

definition createItem_try ::
  "runtime \<Rightarrow> io \<Rightarrow> string \<Rightarrow> jsval option \<Rightarrow> fs \<Rightarrow> (js_error + response) \<times> fs" where
  "createItem_try rt io uuid body s =
     (case JSON_parse body of
        Inl e \<Rightarrow> (Inl e, s)
      | Inr newItemData \<Rightarrow>
     (case validate_create rt newItemData of
        Inl e \<Rightarrow> (Inl e, s)
      | Inr (Inl r) \<Rightarrow> (Inr r, s)
      | Inr (Inr (name, price, lsz)) \<Rightarrow>
     (case readItems io s of
        (items, s1) \<Rightarrow>
     (case elements ''push'' ''push'' items of
        Inl e \<Rightarrow> (Inl e, s1)
      | Inr xs \<Rightarrow>
     (case writeItems io (Arr (xs @ [newItem uuid name price lsz])) s1 of
        Inl e \<Rightarrow> (Inl e, s1)
      | Inr s2 \<Rightarrow>
          (Inr (sendJsonResponse 201 True ''Item created successfully.''
                  (newItem uuid name price lsz)), s2))))))"

definition handleCreateItem ::
  "runtime \<Rightarrow> io \<Rightarrow> string \<Rightarrow> jsval option \<Rightarrow> fs \<Rightarrow> response \<times> fs" where
  "handleCreateItem rt io uuid body s =
     (case createItem_try rt io uuid body s of
        (Inr r, s') \<Rightarrow> (r, s')
      | (Inl SyntaxError, s') \<Rightarrow>
          (sendJsonResponse 400 False ''Invalid JSON format in request body.'' Null, s')
      | (Inl e, s') \<Rightarrow>
          (sendJsonResponse 500 False
             (''Internal server error while creating item: '' @ error_message e) Null, s'))"

subsection \<open>PUT /items/:id\<close>

text \<open>
  The three assignments to \<^verbatim>\<open>items[index]\<close>: a field of the payload that is not
  undefined replaces the item's, before any validation.
\<close>

definition assign_fields :: "runtime \<Rightarrow> jsval \<Rightarrow> jsval \<Rightarrow> js_error + jsval" where
  "assign_fields rt updatedItemData item =
     thenE (get_prop updatedItemData ''name'') (\<lambda>name.
     thenE (if name \<noteq> Undefined then Inr name else get_prop item ''name'') (\<lambda>name'.
     let item1 = set_prop item ''name'' name' in
     thenE (get_prop updatedItemData ''price'') (\<lambda>price.
     thenE (if price \<noteq> Undefined then thenE (parseFloat rt price) (\<lambda>n. Inr (Num n))
            else get_prop item1 ''price'') (\<lambda>price'.
     let item2 = set_prop item1 ''price'' price' in
     thenE (get_prop updatedItemData ''size'') (\<lambda>sz.
     thenE (if sz \<noteq> Undefined then thenE (toLowerCase ''updatedItemData.size'' sz) (\<lambda>l. Inr (Str l))
            else get_prop item2 ''size'') (\<lambda>sz'.
     Inr (set_prop item2 ''size'' sz')))))))"

text \<open>
  The two validations that follow: \<^verbatim>\<open>Some\<close> is the 400 response of the first one
  that fails.
\<close>

definition validate_update :: "runtime \<Rightarrow> jsval \<Rightarrow> jsval \<Rightarrow> js_error + response option" where
  "validate_update rt updatedItemData item' =
     thenE (get_prop updatedItemData ''size'') (\<lambda>sz.
     thenE (get_prop item' ''size'') (\<lambda>sz'.
       if sz \<noteq> Undefined \<and> sz' \<notin> Str ` set validSizes then
         thenE (toString rt sz) (\<lambda>t. Inr (Some (invalid_size t)))
       else
     thenE (get_prop updatedItemData ''price'') (\<lambda>price.
       if price \<noteq> Undefined then
         thenE (price_invalid rt price) (\<lambda>bad. Inr (if bad then Some invalid_price else None))
       else Inr None)))"

definition updateItem_try ::
  "runtime \<Rightarrow> io \<Rightarrow> string \<Rightarrow> jsval option \<Rightarrow> fs \<Rightarrow> (js_error + response) \<times> fs" where
  "updateItem_try rt io itemId body s =
     (case JSON_parse body of
        Inl e \<Rightarrow> (Inl e, s)
      | Inr updatedItemData \<Rightarrow>
     (case readItems io s of
        (items, s1) \<Rightarrow>
     (case thenE (elements ''findIndex'' ''findIndex'' items) (\<lambda>xs.
             thenE (findIndex itemId xs) (\<lambda>index. Inr (xs, index))) of
        Inl e \<Rightarrow> (Inl e, s1)
      | Inr (xs, None) \<Rightarrow> (Inr (not_found itemId), s1)
      | Inr (xs, Some index) \<Rightarrow>
     (case assign_fields rt updatedItemData (xs ! index) of
        Inl e \<Rightarrow> (Inl e, s1)
      | Inr item' \<Rightarrow>
     (case validate_update rt updatedItemData item' of
        Inl e \<Rightarrow> (Inl e, s1)
      | Inr (Some r) \<Rightarrow> (Inr r, s1)
      | Inr None \<Rightarrow>
     (case writeItems io (Arr (xs[index := item'])) s1 of
        Inl e \<Rightarrow> (Inl e, s1)
      | Inr s2 \<Rightarrow>
          (Inr (sendJsonResponse 200 True ''Item updated successfully.'' item'), s2)))))))"

definition handleUpdateItem ::
  "runtime \<Rightarrow> io \<Rightarrow> string \<Rightarrow> jsval option \<Rightarrow> fs \<Rightarrow> response \<times> fs" where
  "handleUpdateItem rt io itemId body s =
     (case updateItem_try rt io itemId body s of
        (Inr r, s') \<Rightarrow> (r, s')
      | (Inl SyntaxError, s') \<Rightarrow>
          (sendJsonResponse 400 False ''Invalid JSON format in request body.'' Null, s')
      | (Inl e, s') \<Rightarrow>
          (sendJsonResponse 500 False
             (''Internal server error while updating item: '' @ error_message e) Null, s'))"

subsection \<open>DELETE /items/:id\<close>

definition deleteItem_try :: "io \<Rightarrow> string \<Rightarrow> fs \<Rightarrow> (js_error + response) \<times> fs" where
  "deleteItem_try io itemId s =
     (case readItems io s of
        (items, s1) \<Rightarrow>
     (case thenE (elements ''length'' ''filter'' items) (\<lambda>xs.
             thenE (filter_other itemId xs) (\<lambda>ys. Inr (length xs, ys))) of
        Inl e \<Rightarrow> (Inl e, s1)
      | Inr (initialLength, ys) \<Rightarrow>
          if length ys < initialLength then
            (case writeItems io (Arr ys) s1 of
               Inl e \<Rightarrow> (Inl e, s1)
             | Inr s2 \<Rightarrow> (Inr (sendJsonResponse 200 True ''Item deleted successfully.'' Null), s2))
          else (Inr (not_found itemId), s1)))"

definition handleDeleteItem :: "io \<Rightarrow> string \<Rightarrow> fs \<Rightarrow> response \<times> fs" where
  "handleDeleteItem io itemId s =
     (case deleteItem_try io itemId s of
        (Inr r, s') \<Rightarrow> (r, s')
      | (Inl e, s') \<Rightarrow>
          (sendJsonResponse 500 False
             (''Internal server error while deleting item: '' @ error_message e) Null, s'))"

section \<open>Routing\<close>

text \<open>\<^verbatim>\<open>s.split(c)\<close>\<close>

fun split :: "char \<Rightarrow> string \<Rightarrow> string list" where
  "split c [] = [[]]"
| "split c (x # xs) =
     (if x = c then [] # split c xs
      else (case split c xs of [] \<Rightarrow> [[x]] | y # ys \<Rightarrow> (x # y) # ys))"

record request =
  http_method :: string
  url :: string
  body :: "jsval option"

text \<open>
  \<^verbatim>\<open>const [urlBase, itemId] = req.url.split('/').filter(Boolean)\<close>: the first two
  segments that are not empty; \<^verbatim>\<open>None\<close> is undefined.
\<close>

definition url_parts :: "string \<Rightarrow> string option \<times> string option" where
  "url_parts u =
     (case filter (\<lambda>seg. seg \<noteq> []) (split CHR ''/'' u) of
        [] \<Rightarrow> (None, None)
      | [a] \<Rightarrow> (Some a, None)
      | a # b # rest \<Rightarrow> (Some a, Some b))"

definition apiServer :: "runtime \<Rightarrow> io \<Rightarrow> string \<Rightarrow> request \<Rightarrow> fs \<Rightarrow> response \<times> fs" where
  "apiServer rt io uuid req s =
     (case url_parts (url req) of
        (urlBase, itemId) \<Rightarrow>
          if urlBase = Some ''items'' then
            if http_method req = ''GET'' then
              (case itemId of
                 Some i \<Rightarrow> handleGetOneItem io i s
               | None \<Rightarrow> handleGetAllItems io s)
            else if http_method req = ''POST'' \<and> itemId = None then
              handleCreateItem rt io uuid (body req) s
            else if http_method req = ''PUT'' \<and> itemId \<noteq> None then
              handleUpdateItem rt io (the itemId) (body req) s
            else if http_method req = ''DELETE'' \<and> itemId \<noteq> None then
              handleDeleteItem io (the itemId) s
            else
              (sendJsonResponse 405 False ''Method Not Allowed or Invalid API Endpoint.'' Null, s)
          else
            (sendJsonResponse 404 False ''API Endpoint Not Found.'' Null, s))"

section \<open>Items, documents and sequences of requests\<close>

definition is_object :: "jsval \<Rightarrow> bool" where
  "is_object v = (case v of Obj kvs \<Rightarrow> True | _ \<Rightarrow> False)"

text \<open>\<^verbatim>\<open>v.k\<close> where it cannot throw; undefined on null and undefined.\<close>

definition field :: "jsval \<Rightarrow> string \<Rightarrow> jsval" where
  "field v k = (case get_prop v k of Inr x \<Rightarrow> x | Inl e \<Rightarrow> Undefined)"

text \<open>
  A value is JSON when \<^verbatim>\<open>JSON.stringify\<close> and \<^verbatim>\<open>JSON.parse\<close> give it back: nothing
  in it is undefined and every number in it is finite. Every document that the server
  has written is of this kind.
\<close>

fun is_json :: "jsval \<Rightarrow> bool" where
  "is_json Undefined = False"
| "is_json Null = True"
| "is_json (Bool b) = True"
| "is_json (Num n) = is_finite n"
| "is_json (Str s) = True"
| "is_json (Arr xs) = list_all is_json xs"
| "is_json (Obj kvs) = list_all is_json (map snd kvs)"

text \<open>
  What the code keeps true of every item it persists: the item is an object whose id is
  a string that is not empty, whose price is a finite number and whose size is one of
  the valid sizes.
\<close>

definition item_ok :: "jsval \<Rightarrow> bool" where
  "item_ok v =
     (is_object v
      \<and> (case field v ''id'' of Str i \<Rightarrow> i \<noteq> [] | _ \<Rightarrow> False)
      \<and> (case field v ''price'' of Num n \<Rightarrow> is_finite n | _ \<Rightarrow> False)
      \<and> (case field v ''size'' of Str z \<Rightarrow> z \<in> set validSizes | _ \<Rightarrow> False))"

text \<open>\<^verbatim>\<open>n >= 0\<close>\<close>

fun num_ge0 :: "jsnum \<Rightarrow> bool" where
  "num_ge0 (Fin q) = (0 \<le> q)"
| "num_ge0 PosInf = True"
| "num_ge0 NegInf = False"
| "num_ge0 NaN = False"

text \<open>
  The invariant in the words of the specification: a non-empty id, a price that is at
  least 0, and a size in the enumeration.
\<close>

definition spec_item_ok :: "jsval \<Rightarrow> bool" where
  "spec_item_ok v =
     ((case field v ''id'' of Str i \<Rightarrow> i \<noteq> [] | _ \<Rightarrow> False)
      \<and> (case field v ''price'' of Num n \<Rightarrow> num_ge0 n | _ \<Rightarrow> False)
      \<and> (case field v ''size'' of Str z \<Rightarrow> z \<in> set validSizes | _ \<Rightarrow> False))"

text \<open>
  The persisted document is absent or an array, and every item in it satisfies \<^verbatim>\<open>P\<close>.
\<close>

definition every_item :: "(jsval \<Rightarrow> bool) \<Rightarrow> fs \<Rightarrow> bool" where
  "every_item P s =
     (case doc s of
        None \<Rightarrow> True
      | Some (Json (Arr xs)) \<Rightarrow> list_all P xs
      | Some d \<Rightarrow> False)"

text \<open>
  A sequence of requests: each comes with the outcome of its file system calls and
  with the string that \<^verbatim>\<open>randomUUID()\<close> returns when the request calls it.
\<close>

definition serve :: "runtime \<Rightarrow> fs \<Rightarrow> io \<times> string \<times> request \<Rightarrow> fs" where
  "serve rt s x = (case x of (io, uuid, req) \<Rightarrow> snd (apiServer rt io uuid req s))"

definition run :: "runtime \<Rightarrow> (io \<times> string \<times> request) list \<Rightarrow> fs \<Rightarrow> fs" where
  "run rt rs s = foldl (serve rt) s rs"

section \<open>The validation rules\<close>

text \<open>A size that is, without regard to case, one of the valid sizes.\<close>

definition size_in_enum :: "jsval \<Rightarrow> bool" where
  "size_in_enum z = (case z of Str t \<Rightarrow> map lower_char t \<in> set validSizes | _ \<Rightarrow> False)"

text \<open>
  A value that the coercions do not throw on: it is not an object with an own property
  named \<^verbatim>\<open>toString\<close>, nor an array that holds such a value.
\<close>

fun convertible :: "jsval \<Rightarrow> bool" where
  "convertible (Arr xs) = list_all convertible xs"
| "convertible (Obj kvs) = (map_of kvs ''toString'' = None)"
| "convertible v = True"

text \<open>
  A price that \<^verbatim>\<open>parseFloat\<close> reads as a number and \<^verbatim>\<open>isFinite\<close> accepts, neither of
  them throwing, and the number read (NaN when \<^verbatim>\<open>parseFloat\<close> throws).
\<close>

definition price_is_number :: "runtime \<Rightarrow> jsval \<Rightarrow> bool" where
  "price_is_number rt p = (price_invalid rt p = Inr False)"

definition price_number :: "runtime \<Rightarrow> jsval \<Rightarrow> jsnum" where
  "price_number rt p = (case parseFloat rt p of Inr n \<Rightarrow> n | Inl e \<Rightarrow> NaN)"

text \<open>
  What the code accepts on create, for a price that is not the number 0: the name is
  present and not empty (not falsy), the price is a number and the size is in the
  enumeration.
\<close>

definition create_accepts :: "runtime \<Rightarrow> jsval \<Rightarrow> bool" where
  "create_accepts rt d =
     (truthy (field d ''name'') \<and> price_is_number rt (field d ''price'')
      \<and> size_in_enum (field d ''size''))"

text \<open>The size as it is stored, and the item that create builds from a payload.\<close>

definition canonical_size :: "jsval \<Rightarrow> string" where
  "canonical_size z = (case z of Str t \<Rightarrow> map lower_char t | _ \<Rightarrow> [])"

definition created_item :: "runtime \<Rightarrow> string \<Rightarrow> jsval \<Rightarrow> jsval" where
  "created_item rt uuid d =
     newItem uuid (field d ''name'') (price_number rt (field d ''price''))
       (canonical_size (field d ''size''))"

text \<open>
  What the code accepts on update: a size that is given is in the enumeration and a
  price that is given is a number.
\<close>

definition update_accepts :: "runtime \<Rightarrow> jsval \<Rightarrow> bool" where
  "update_accepts rt d =
     ((field d ''size'' = Undefined \<or> size_in_enum (field d ''size''))
      \<and> (field d ''price'' = Undefined \<or> price_is_number rt (field d ''price'')))"

text \<open>
  The item after the three assignments of update: a field that the payload gives
  replaces the item's (the price as a number, the size in lower case), a field that
  it does not give keeps its value.
\<close>

definition updated_item :: "runtime \<Rightarrow> jsval \<Rightarrow> jsval \<Rightarrow> jsval" where
  "updated_item rt d item =
     set_prop
       (set_prop
         (set_prop item ''name''
           (if field d ''name'' = Undefined then field item ''name'' else field d ''name''))
         ''price''
         (if field d ''price'' = Undefined then field item ''price''
          else Num (price_number rt (field d ''price''))))
       ''size''
       (if field d ''size'' = Undefined then field item ''size''
        else Str (canonical_size (field d ''size'')))"

text \<open>
  The rules in the words of the specification: a name is present and not empty, a
  price is present and can be read as a finite number that is not negative, a size is,
  without regard to case, in the enumeration.
\<close>

definition spec_name_ok :: "jsval \<Rightarrow> bool" where
  "spec_name_ok n = (n \<noteq> Undefined \<and> n \<noteq> Null \<and> n \<noteq> Str [])"

definition spec_price_ok :: "runtime \<Rightarrow> jsval \<Rightarrow> bool" where
  "spec_price_ok rt p = (p \<noteq> Undefined \<and> price_is_number rt p \<and> num_ge0 (price_number rt p))"

definition spec_validateForCreate :: "runtime \<Rightarrow> jsval \<Rightarrow> bool" where
  "spec_validateForCreate rt d =
     (spec_name_ok (field d ''name'') \<and> spec_price_ok rt (field d ''price'')
      \<and> size_in_enum (field d ''size''))"


section \<open>The routes\<close>

text \<open>
  What the router looks at: the verb, and whether the URL has a second segment.
\<close>

definition route_known :: "string \<Rightarrow> bool \<Rightarrow> bool" where
  "route_known m has_item =
     (m = ''GET'' \<or> (m = ''POST'' \<and> \<not> has_item) \<or> (m = ''PUT'' \<and> has_item)
      \<or> (m = ''DELETE'' \<and> has_item))"

text \<open>
  The routes in the words of the specification: a path is under \<^verbatim>\<open>/items\<close> when it is
  \<^verbatim>\<open>/items\<close> or starts with \<^verbatim>\<open>/items/\<close>; the five operations are GET and POST on
  \<^verbatim>\<open>/items\<close> and GET, PUT and DELETE on \<^verbatim>\<open>/items/{id}\<close>, where the id is one segment.
\<close>

definition spec_under_items :: "string \<Rightarrow> bool" where
  "spec_under_items u = (u = ''/items'' \<or> take 7 u = ''/items/'')"

definition spec_item_path :: "string \<Rightarrow> bool" where
  "spec_item_path u = (take 7 u = ''/items/'' \<and> drop 7 u \<noteq> [] \<and> CHR ''/'' \<notin> set (drop 7 u))"

definition spec_recognized :: "string \<Rightarrow> string \<Rightarrow> bool" where
  "spec_recognized m u =
     ((m \<in> {''GET'', ''POST''} \<and> u = ''/items'')
      \<or> (m \<in> {''GET'', ''PUT'', ''DELETE''} \<and> spec_item_path u))"

section \<open>An instance of the runtime for the examples\<close>

text \<open>
  The examples run with this instance of the runtime's conversions. It reads a string
  of decimal digits as ECMAScript does and every other string as NaN, and it prints the
  whole numbers that are not negative. No example converts another string or prints
  another number.
\<close>

definition is_digit :: "char \<Rightarrow> bool" where
  "is_digit c = (48 \<le> (of_char c :: nat) \<and> (of_char c :: nat) \<le> 57)"

definition digits_value :: "string \<Rightarrow> nat" where
  "digits_value ds = foldl (\<lambda>a c. 10 * a + (of_char c - 48)) 0 ds"

fun print_nat :: "nat \<Rightarrow> string" where
  "print_nat n =
     (if n < 10 then [char_of (48 + n)] else print_nat (n div 10) @ [char_of (48 + n mod 10)])"

definition example_runtime :: runtime where
  "example_runtime =
     \<lparr>str_parseFloat =
        (\<lambda>s. if takeWhile is_digit s = [] then NaN
             else Fin (of_nat (digits_value (takeWhile is_digit s)))),
      str_toNumber =
        (\<lambda>s. if s = [] then Fin 0
             else if list_all is_digit s then Fin (of_nat (digits_value s))
             else NaN),
      num_toString =
        (\<lambda>n. case n of
               Fin q \<Rightarrow> (if q = of_int \<lfloor>q\<rfloor> \<and> 0 \<le> q then print_nat (nat \<lfloor>q\<rfloor>) else ''NaN'')
             | PosInf \<Rightarrow> ''Infinity''
             | NegInf \<Rightarrow> ''-Infinity''
             | NaN \<Rightarrow> ''NaN'')\<rparr>"

definition io_ok :: io where
  "io_ok = \<lparr>read_ok = True, init_ok = True, write_ok = True\<rparr>"

definition empty_fs :: fs where
  "empty_fs = \<lparr>doc = None, writes = 0\<rparr>"

definition item_A :: jsval where
  "item_A = Obj [(''id'', Str ''a1''), (''name'', Str ''A''), (''price'', Num (Fin 1)),
                 (''size'', Str ''s'')]"

definition item_B :: jsval where
  "item_B = Obj [(''id'', Str ''b2''), (''name'', Str ''B''), (''price'', Num (Fin 5)),
                 (''size'', Str ''l'')]"

definition one_item_fs :: fs where
  "one_item_fs = \<lparr>doc = Some (Json (Arr [item_A])), writes = 1\<rparr>"

definition two_items_fs :: fs where
  "two_items_fs = \<lparr>doc = Some (Json (Arr [item_A, item_B])), writes = 2\<rparr>"

definition create_X :: request where
  "create_X = \<lparr>http_method = ''POST'', url = ''/items'',
     body = Some (Obj [(''name'', Str ''X''), (''price'', Num (Fin (- 1))), (''size'', Str ''M'')])\<rparr>"

definition create_Y :: request where
  "create_Y = \<lparr>http_method = ''POST'', url = ''/items'',
     body = Some (Obj [(''name'', Str ''Y''), (''price'', Num (Fin 3)), (''size'', Str ''s'')])\<rparr>"

definition update_u1 :: request where
  "update_u1 = \<lparr>http_method = ''PUT'', url = ''/items/u1'',
     body = Some (Obj [(''price'', Num (Fin 7))])\<rparr>"

definition delete_u2 :: request where
  "delete_u2 = \<lparr>http_method = ''DELETE'', url = ''/items/u2'', body = None\<rparr>"

section \<open>Errors and coercions\<close>

lemma thenE_Inl_iff:
  "thenE m f = Inl e \<longleftrightarrow> m = Inl e \<or> (\<exists>x. m = Inr x \<and> f x = Inl e)"
  by (cases m) (simp_all add: thenE_def)

lemma thenE_Inr_iff:
  "thenE m f = Inr y \<longleftrightarrow> (\<exists>x. m = Inr x \<and> f x = Inr y)"
  by (cases m) (simp_all add: thenE_def)

lemma thenE_Inr [simp]: "thenE (Inr x) f = f x"
  by (simp add: thenE_def)

lemma thenE_Inl [simp]: "thenE (Inl e) f = Inl e"
  by (simp add: thenE_def)

lemma first_error_Inl: "first_error ms = Inl e \<Longrightarrow> Inl e \<in> set ms"
  by (induction ms) (auto simp: thenE_Inl_iff)

lemma first_error_Inr_ex:
  "(\<exists>xs. first_error ms = Inr xs) \<longleftrightarrow> (\<forall>m\<in>set ms. \<exists>x. m = Inr x)"
  by (induction ms) (auto simp: thenE_Inr_iff)

lemma toString_error:
  "toString rt v = Inl e \<Longrightarrow> e = TypeError ''Cannot convert object to primitive value''"
proof (induction v)
  case (Arr xs)
  let ?f = "\<lambda>x. if x = Null \<or> x = Undefined then Inr [] else toString rt x"
  from Arr.prems have "first_error (map ?f xs) = Inl e"
    by (simp add: thenE_Inl_iff)
  then have "Inl e \<in> set (map ?f xs)" by (rule first_error_Inl)
  then obtain x where "x \<in> set xs" "?f x = Inl e" by auto
  then show ?case using Arr.IH by (auto split: if_splits)
qed (auto split: if_splits)

lemma toString_convertible: "(\<exists>s. toString rt v = Inr s) \<longleftrightarrow> convertible v"
proof (induction v)
  case (Arr xs)
  let ?f = "\<lambda>x. if x = Null \<or> x = Undefined then Inr [] else toString rt x"
  have "(\<exists>s. toString rt (Arr xs) = Inr s) \<longleftrightarrow> (\<exists>ss. first_error (map ?f xs) = Inr ss)"
    by (auto simp: thenE_Inr_iff)
  also have "\<dots> \<longleftrightarrow> (\<forall>x\<in>set xs. \<exists>s. ?f x = Inr s)"
    unfolding first_error_Inr_ex by auto
  also have "\<dots> \<longleftrightarrow> (\<forall>x\<in>set xs. convertible x)"
    using Arr.IH by (intro ball_cong refl) auto
  finally show ?case by (simp add: list_all_iff)
qed auto

lemma parseFloat_convertible: "(\<exists>n. parseFloat rt v = Inr n) \<longleftrightarrow> convertible v"
  using toString_convertible [of rt v]
  by (cases v) (auto simp: parseFloat_def thenE_Inr_iff simp del: toString.simps)



lemma toString_not_syntax [simp]: "toString rt v \<noteq> Inl SyntaxError"
  using toString_error [of rt v SyntaxError] by auto

lemma parseFloat_not_syntax [simp]: "parseFloat rt v \<noteq> Inl SyntaxError"
  by (cases v) (auto simp: parseFloat_def thenE_Inl_iff simp del: toString.simps)

lemma toNumber_not_syntax [simp]: "toNumber rt v \<noteq> Inl SyntaxError"
  by (cases v) (auto simp: toNumber_def thenE_Inl_iff simp del: toString.simps)

lemma price_invalid_not_syntax [simp]: "price_invalid rt v \<noteq> Inl SyntaxError"
  by (auto simp: price_invalid_def isFinite_def thenE_Inl_iff)

section \<open>Case rules of the handlers\<close>

lemma readItems_nonempty:
  "fst (readItems io s) = Arr (x # xs) \<Longrightarrow> snd (readItems io s) = s"
  by (auto simp: readItems_def readItems_try_def split: option.splits if_splits document.splits)

lemma elements_Inr: "elements p m v = Inr xs \<longleftrightarrow> v = Arr xs"
  by (cases v) auto

lemma createItem_try_cases:
  obtains
    (malformed) "b = None" "createItem_try rt io uuid b s = (Inl SyntaxError, s)"
  | (thrown) d e where "b = Some d" "validate_create rt d = Inl e"
      "createItem_try rt io uuid b s = (Inl e, s)"
  | (invalid) d r where "b = Some d" "validate_create rt d = Inr (Inl r)"
      "createItem_try rt io uuid b s = (Inr r, s)"
  | (not_array) d n p l e where "b = Some d" "validate_create rt d = Inr (Inr (n, p, l))"
      "elements ''push'' ''push'' (fst (readItems io s)) = Inl e"
      "createItem_try rt io uuid b s = (Inl e, snd (readItems io s))"
  | (write_failed) d n p l xs where "b = Some d" "validate_create rt d = Inr (Inr (n, p, l))"
      "fst (readItems io s) = Arr xs" "\<not> write_ok io"
      "createItem_try rt io uuid b s =
         (Inl (Error ''Failed to persist items.''), snd (readItems io s))"
  | (created) d n p l xs where "b = Some d" "validate_create rt d = Inr (Inr (n, p, l))"
      "fst (readItems io s) = Arr xs" "write_ok io"
      "createItem_try rt io uuid b s =
         (Inr (sendJsonResponse 201 True ''Item created successfully.'' (newItem uuid n p l)),
          writeFile (Json (JSON_stringify (Arr (xs @ [newItem uuid n p l]))))
            (snd (readItems io s)))"
proof (cases b)
  case None
  then show ?thesis using malformed by (simp add: createItem_try_def JSON_parse_def)
next
  case (Some d)
  note b = this
  show ?thesis
  proof (cases "validate_create rt d")
    case (Inl e)
    then show ?thesis using thrown b by (simp add: createItem_try_def JSON_parse_def)
  next
    case (Inr v)
    show ?thesis
    proof (cases v)
      case (Inl r)
      then show ?thesis using invalid b Inr by (simp add: createItem_try_def JSON_parse_def)
    next
      case (Inr t)
      obtain n p l where t: "t = (n, p, l)" by (cases t) auto
      obtain items s1 where rd: "readItems io s = (items, s1)" by (cases "readItems io s") auto
      have v: "validate_create rt d = Inr (Inr (n, p, l))"
        using \<open>validate_create rt d = Inr v\<close> Inr t by simp
      show ?thesis
      proof (cases "elements ''push'' ''push'' items")
        case (Inl e)
        then show ?thesis using not_array [OF b v] rd b v
          by (simp add: createItem_try_def JSON_parse_def)
      next
        case (Inr xs)
        then have items: "items = Arr xs" by (simp add: elements_Inr)
        show ?thesis
        proof (cases "write_ok io")
          case True
          then show ?thesis using created [OF b v, of xs] rd b v items
            by (simp add: createItem_try_def JSON_parse_def writeItems_def)
        next
          case False
          then show ?thesis using write_failed [OF b v, of xs] rd b v items
            by (simp add: createItem_try_def JSON_parse_def writeItems_def)
        qed
      qed
    qed
  qed
qed

lemma updateItem_try_cases:
  obtains
    (malformed) "b = None" "updateItem_try rt io itemId b s = (Inl SyntaxError, s)"
  | (not_array) d e where "b = Some d"
      "elements ''findIndex'' ''findIndex'' (fst (readItems io s)) = Inl e"
      "updateItem_try rt io itemId b s = (Inl e, snd (readItems io s))"
  | (thrown_find) d xs e where "b = Some d" "fst (readItems io s) = Arr xs"
      "findIndex itemId xs = Inl e"
      "updateItem_try rt io itemId b s = (Inl e, snd (readItems io s))"
  | (absent) d xs where "b = Some d" "fst (readItems io s) = Arr xs"
      "findIndex itemId xs = Inr None"
      "updateItem_try rt io itemId b s = (Inr (not_found itemId), snd (readItems io s))"
  | (thrown_assign) d xs i e where "b = Some d" "fst (readItems io s) = Arr xs"
      "findIndex itemId xs = Inr (Some i)" "assign_fields rt d (xs ! i) = Inl e"
      "updateItem_try rt io itemId b s = (Inl e, s)"
  | (thrown_validate) d xs i item' e where "b = Some d" "fst (readItems io s) = Arr xs"
      "findIndex itemId xs = Inr (Some i)" "assign_fields rt d (xs ! i) = Inr item'"
      "validate_update rt d item' = Inl e"
      "updateItem_try rt io itemId b s = (Inl e, s)"
  | (invalid) d xs i item' r where "b = Some d" "fst (readItems io s) = Arr xs"
      "findIndex itemId xs = Inr (Some i)" "assign_fields rt d (xs ! i) = Inr item'"
      "validate_update rt d item' = Inr (Some r)"
      "updateItem_try rt io itemId b s = (Inr r, s)"
  | (write_failed) d xs i item' where "b = Some d" "fst (readItems io s) = Arr xs"
      "findIndex itemId xs = Inr (Some i)" "assign_fields rt d (xs ! i) = Inr item'"
      "validate_update rt d item' = Inr None" "\<not> write_ok io"
      "updateItem_try rt io itemId b s = (Inl (Error ''Failed to persist items.''), s)"
  | (updated) d xs i item' where "b = Some d" "fst (readItems io s) = Arr xs"
      "findIndex itemId xs = Inr (Some i)" "assign_fields rt d (xs ! i) = Inr item'"
      "validate_update rt d item' = Inr None" "write_ok io"
      "updateItem_try rt io itemId b s =
         (Inr (sendJsonResponse 200 True ''Item updated successfully.'' item'),
          writeFile (Json (JSON_stringify (Arr (xs[i := item'])))) s)"
proof (cases b)
  case None
  then show ?thesis using malformed by (simp add: updateItem_try_def JSON_parse_def)
next
  case (Some d)
  note b = this
  obtain items s1 where rd: "readItems io s = (items, s1)" by (cases "readItems io s") auto
  show ?thesis
  proof (cases "elements ''findIndex'' ''findIndex'' items")
    case (Inl e)
    then show ?thesis using not_array [OF b] rd b
      by (simp add: updateItem_try_def JSON_parse_def thenE_def)
  next
    case (Inr xs)
    then have items: "items = Arr xs" by (simp add: elements_Inr)
    show ?thesis
    proof (cases "findIndex itemId xs")
      case (Inl e)
      then show ?thesis using thrown_find [OF b, of xs] rd b items
        by (simp add: updateItem_try_def JSON_parse_def thenE_def)
    next
      case (Inr r)
      show ?thesis
      proof (cases r)
        case None
        then show ?thesis using absent [OF b, of xs] rd b items Inr
          by (simp add: updateItem_try_def JSON_parse_def thenE_def)
      next
        case (Some i)
        with Inr have fi: "findIndex itemId xs = Inr (Some i)" by simp
        then have "xs \<noteq> []" by (cases xs) auto
        then obtain y ys where "xs = y # ys" by (cases xs) auto
        then have s1: "s1 = s" using readItems_nonempty [of io s y ys] rd items by simp
        show ?thesis
        proof (cases "assign_fields rt d (xs ! i)")
          case (Inl e)
          then show ?thesis using thrown_assign [OF b _ fi] rd b items fi s1
            by (simp add: updateItem_try_def JSON_parse_def thenE_def)
        next
          case (Inr item')
          note af = this
          show ?thesis
          proof (cases "validate_update rt d item'")
            case (Inl e)
            then show ?thesis using thrown_validate [OF b _ fi af] rd b items fi s1 af
              by (simp add: updateItem_try_def JSON_parse_def thenE_def)
          next
            case (Inr v)
            show ?thesis
            proof (cases v)
              case (Some r)
              then show ?thesis using invalid [OF b _ fi af] rd b items fi s1 af Inr
                by (simp add: updateItem_try_def JSON_parse_def thenE_def)
            next
              case None
              then show ?thesis
                using write_failed [OF b _ fi af] updated [OF b _ fi af] rd b items fi s1 af Inr
                by (cases "write_ok io")
                  (simp_all add: updateItem_try_def JSON_parse_def thenE_def writeItems_def)
            qed
          qed
        qed
      qed
    qed
  qed
qed

section \<open>No handler mistakes another error for a SyntaxError\<close>

lemma get_prop_not_syntax [simp]: "get_prop v k \<noteq> Inl SyntaxError"
  by (cases v) auto

lemma toLowerCase_not_syntax [simp]: "toLowerCase e v \<noteq> Inl SyntaxError"
  by (cases v) auto

lemma elements_not_syntax [simp]: "elements p m v \<noteq> Inl SyntaxError"
  by (cases v) auto

lemma has_id_not_syntax [simp]: "has_id i v \<noteq> Inl SyntaxError"
  by (simp add: has_id_def thenE_Inl_iff)

lemma findIndex_not_syntax [simp]: "findIndex i xs \<noteq> Inl SyntaxError"
  by (induction xs) (auto simp: thenE_Inl_iff)

lemma validate_create_not_syntax [simp]: "validate_create rt d \<noteq> Inl SyntaxError"
  by (auto simp: validate_create_def thenE_Inl_iff)

lemma validate_create_status:
  "validate_create rt d = Inr (Inl r) \<Longrightarrow> status r = 400"
  by (auto simp: validate_create_def thenE_Inr_iff invalid_size_def invalid_price_def
      sendJsonResponse_def split: if_splits)


lemma validate_update_not_syntax [simp]: "validate_update rt d item \<noteq> Inl SyntaxError"
  by (auto simp: validate_update_def thenE_Inl_iff)

lemma validate_update_status:
  "validate_update rt d item = Inr (Some r) \<Longrightarrow> status r = 400"
  by (auto simp: validate_update_def thenE_Inr_iff invalid_size_def invalid_price_def
      sendJsonResponse_def split: if_splits)

section \<open>What the \<^verbatim>\<open>catch\<close> blocks answer\<close>

lemma status_sendJsonResponse [simp]: "status (sendJsonResponse c ok m d) = c"
  by (simp add: sendJsonResponse_def)

lemma handleCreateItem_Inr:
  "createItem_try rt io uuid b s = (Inr r, s') \<Longrightarrow> handleCreateItem rt io uuid b s = (r, s')"
  by (simp add: handleCreateItem_def)

lemma handleCreateItem_Inl:
  "createItem_try rt io uuid b s = (Inl e, s') \<Longrightarrow>
   snd (handleCreateItem rt io uuid b s) = s' \<and>
   status (fst (handleCreateItem rt io uuid b s)) = (if e = SyntaxError then 400 else 500)"
  by (cases e) (simp_all add: handleCreateItem_def)

lemma handleUpdateItem_Inr:
  "updateItem_try rt io i b s = (Inr r, s') \<Longrightarrow> handleUpdateItem rt io i b s = (r, s')"
  by (simp add: handleUpdateItem_def)

lemma handleUpdateItem_Inl:
  "updateItem_try rt io i b s = (Inl e, s') \<Longrightarrow>
   snd (handleUpdateItem rt io i b s) = s' \<and>
   status (fst (handleUpdateItem rt io i b s)) = (if e = SyntaxError then 400 else 500)"
  by (cases e) (simp_all add: handleUpdateItem_def)

section \<open>Properties of values under \<^verbatim>\<open>JSON.stringify\<close>\<close>

lemma map_of_drop_undefined:
  "map_of (drop_undefined kvs) k =
     (case map_of kvs k of None \<Rightarrow> None | Some v \<Rightarrow> if v = Undefined then None else Some v)"
proof (induction kvs rule: drop_undefined.induct)
  case 1
  then show ?case by simp
next
  case (2 k' v kvs)
  have f: "k \<noteq> k' \<Longrightarrow> map_of (filter (\<lambda>p. fst p \<noteq> k') kvs) k = map_of kvs k"
    by (induction kvs) auto
  have g: "map_of (filter (\<lambda>p. fst p \<noteq> k') kvs) k' = None"
    by (induction kvs) auto
  show ?case
  proof (cases "v = Undefined")
    case True
    with 2 f g show ?thesis by (cases "k = k'") (auto split: option.splits)
  next
    case False
    with 2 show ?thesis by (cases "k = k'") auto
  qed
qed

lemma drop_undefined_id: "Undefined \<notin> snd ` set kvs \<Longrightarrow> drop_undefined kvs = kvs"
  by (induction kvs rule: drop_undefined.induct) auto

lemma JSON_stringify_Undefined_iff [simp]: "JSON_stringify v = Undefined \<longleftrightarrow> v = Undefined"
  by (cases v) auto

lemma JSON_stringify_Str_iff [simp]: "JSON_stringify v = Str s \<longleftrightarrow> v = Str s"
  by (cases v) auto

lemma map_of_map_prod: "map_of (map (map_prod id f) kvs) k = map_option f (map_of kvs k)"
  by (induction kvs) auto

lemma field_Obj: "field (Obj kvs) k = (case map_of kvs k of None \<Rightarrow> Undefined | Some v \<Rightarrow> v)"
  by (simp add: field_def)

lemma field_JSON_stringify: "field (JSON_stringify v) k = JSON_stringify (field v k)"
proof (cases v)
  case (Obj kvs)
  then show ?thesis
    by (simp add: field_Obj map_of_drop_undefined map_of_map_prod split: option.splits)
qed (simp_all add: field_def)

lemma is_object_JSON_stringify [simp]: "is_object (JSON_stringify v) \<longleftrightarrow> is_object v"
  by (cases v) (simp_all add: is_object_def)

lemma undefined_to_null_object [simp]: "is_object v \<Longrightarrow> undefined_to_null v = v"
  by (cases v) (simp_all add: is_object_def undefined_to_null_def)

lemma get_prop_object: "is_object v \<Longrightarrow> get_prop v k = Inr (field v k)"
  by (cases v) (simp_all add: is_object_def field_def)

lemma has_id_object: "is_object v \<Longrightarrow> has_id i v = Inr (field v ''id'' = Str i)"
  by (simp add: has_id_def get_prop_object)

lemma has_id_True: "has_id i v = Inr True \<Longrightarrow> is_object v \<and> field v ''id'' = Str i"
  by (cases v) (auto simp: has_id_def is_object_def field_def)

lemma is_json_JSON_stringify: "is_json v \<Longrightarrow> JSON_stringify v = v"
proof (induction v)
  case (Arr xs)
  then have "\<forall>x\<in>set xs. JSON_stringify x = x \<and> x \<noteq> Undefined"
    by (auto simp: list_all_iff)
  then have "map undefined_to_null (map JSON_stringify xs) = xs"
    by (induction xs) (auto simp: undefined_to_null_def)
  then show ?case by simp
next
  case (Obj kvs)
  then have a: "\<forall>p\<in>set kvs. JSON_stringify (snd p) = snd p \<and> snd p \<noteq> Undefined"
    by (fastforce simp: list_all_iff snds.simps)
  then have "map (map_prod id JSON_stringify) kvs = kvs"
    by (induction kvs) auto
  moreover have "Undefined \<notin> snd ` set kvs" using a by auto
  ultimately show ?case by (simp add: drop_undefined_id)
qed simp_all

section \<open>Collections of objects\<close>

lemma readItems_present:
  "doc s = Some (Json v) \<Longrightarrow> read_ok io \<Longrightarrow> readItems io s = (v, s)"
  by (simp add: readItems_def readItems_try_def)

lemma filter_other_objects:
  "list_all is_object xs \<Longrightarrow>
   filter_other i xs = Inr (filter (\<lambda>x. field x ''id'' \<noteq> Str i) xs)"
  by (induction xs) (simp_all add: has_id_object)

lemma find_by_id_objects:
  "list_all is_object xs \<Longrightarrow> find_by_id i xs = Inr (find (\<lambda>x. field x ''id'' = Str i) xs)"
  by (induction xs) (simp_all add: has_id_object)

lemma JSON_stringify_objects:
  "list_all is_object xs \<Longrightarrow> JSON_stringify (Arr xs) = Arr (map JSON_stringify xs)"
  by (induction xs) simp_all

lemma handleDeleteItem_present:
  assumes "doc s = Some (Json (Arr xs))" and "list_all is_object xs"
    and "read_ok io" and "write_ok io"
    and "\<exists>x\<in>set xs. field x ''id'' = Str itemId"
  shows "handleDeleteItem io itemId s =
    (sendJsonResponse 200 True ''Item deleted successfully.'' Null,
     writeFile (Json (Arr (map JSON_stringify (filter (\<lambda>x. field x ''id'' \<noteq> Str itemId) xs)))) s)"
proof -
  have "length (filter (\<lambda>x. field x ''id'' \<noteq> Str itemId) xs) < length xs"
    using assms(5) by (auto intro: length_filter_less)
  moreover have "list_all is_object (filter (\<lambda>x. field x ''id'' \<noteq> Str itemId) xs)"
    using assms(2) by (simp add: list_all_iff)
  moreover from this have "JSON_stringify (Arr (filter (\<lambda>x. field x ''id'' \<noteq> Str itemId) xs)) =
      Arr (map JSON_stringify (filter (\<lambda>x. field x ''id'' \<noteq> Str itemId) xs))"
    by (rule JSON_stringify_objects)
  ultimately show ?thesis
    using assms(1-4)
    by (simp add: handleDeleteItem_def deleteItem_try_def readItems_present
        filter_other_objects writeItems_def del: JSON_stringify.simps)
qed

lemma handleDeleteItem_absent:
  assumes "doc s = Some (Json (Arr xs))" and "list_all is_object xs" and "read_ok io"
    and "\<forall>x\<in>set xs. field x ''id'' \<noteq> Str itemId"
  shows "handleDeleteItem io itemId s = (not_found itemId, s)"
proof -
  have "filter (\<lambda>x. field x ''id'' \<noteq> Str itemId) xs = xs"
    using assms(4) by (simp add: filter_id_conv)
  then show ?thesis
    using assms(1-3)
    by (simp add: handleDeleteItem_def deleteItem_try_def readItems_present
        filter_other_objects)
qed

lemma handleGetOneItem_absent:
  assumes "doc s = Some (Json (Arr xs))" and "list_all is_object xs" and "read_ok io"
    and "\<forall>x\<in>set xs. field x ''id'' \<noteq> Str itemId"
  shows "handleGetOneItem io itemId s = (not_found itemId, s)"
proof -
  have "find (\<lambda>x. field x ''id'' = Str itemId) xs = None"
    using assms(4) by (simp add: find_None_iff)
  then show ?thesis
    using assms(1-3)
    by (simp add: handleGetOneItem_def getOneItem_try_def readItems_present
        find_by_id_objects)
qed

section \<open>Create\<close>

lemma runtime_ok_example: "runtime_ok example_runtime"
  by (auto simp: runtime_ok_def example_runtime_def)

lemma price_is_number_iff:
  "price_is_number rt p \<longleftrightarrow>
     (\<exists>n m. parseFloat rt p = Inr n \<and> \<not> isNaN n \<and> toNumber rt p = Inr m \<and> is_finite m)"
  by (auto simp: price_is_number_def price_invalid_def isFinite_def thenE_Inr_iff)

lemma price_is_number_parseFloat:
  "price_is_number rt p \<Longrightarrow> parseFloat rt p = Inr (price_number rt p)"
  by (auto simp: price_is_number_iff price_number_def)

lemma price_is_number_convertible: "price_is_number rt p \<Longrightarrow> convertible p"
  using parseFloat_convertible [of rt p] by (auto simp: price_is_number_iff)

lemma parseFloat_finite:
  assumes "runtime_ok rt" and "price_is_number rt p"
  shows "is_finite (price_number rt p)"
proof -
  from assms(2) obtain n m where
    n: "parseFloat rt p = Inr n" "\<not> isNaN n" and m: "toNumber rt p = Inr m" "is_finite m"
    by (auto simp: price_is_number_iff)
  have "is_finite n"
  proof (cases p)
    case (Num k)
    with n m show ?thesis by (simp add: parseFloat_def toNumber_def)
  next
    case (Str t)
    with n m assms(1) show ?thesis
      by (auto simp: parseFloat_def toNumber_def runtime_ok_def)
  next
    case (Arr xs)
    with n m assms(1) show ?thesis
      by (auto simp: parseFloat_def toNumber_def runtime_ok_def thenE_Inr_iff
          simp del: toString.simps)
  next
    case (Obj kvs)
    with n show ?thesis
      by (auto simp: parseFloat_def thenE_Inr_iff simp del: toString.simps)
  qed (use n in \<open>simp_all add: parseFloat_def\<close>)
  then show ?thesis using n by (simp add: price_number_def)
qed

lemma price_truthy:
  assumes "runtime_ok rt" and "price_is_number rt p" and "p \<noteq> Num (Fin 0)"
  shows "truthy p"
proof -
  from assms(2) obtain n where n: "parseFloat rt p = Inr n" "\<not> isNaN n"
    by (auto simp: price_is_number_iff)
  show ?thesis
  proof (cases p)
    case (Num k)
    with n assms(3) show ?thesis by (cases k) (auto simp: parseFloat_def)
  next
    case (Str t)
    with n assms(1) show ?thesis by (auto simp: parseFloat_def runtime_ok_def)
  qed (use n in \<open>simp_all add: parseFloat_def\<close>)
qed

lemma get_prop_field:
  "v \<noteq> Undefined \<Longrightarrow> v \<noteq> Null \<Longrightarrow> get_prop v k = Inr (field v k)"
  by (cases v) (simp_all add: field_def)

lemma field_Undefined [simp]: "field Undefined k = Undefined" "field Null k = Undefined"
  by (simp_all add: field_def)

lemma toLowerCase_Inr_iff: "toLowerCase e z = Inr l \<longleftrightarrow> (\<exists>t. z = Str t \<and> l = map lower_char t)"
  by (cases z) auto

lemma price_stage:
  "thenE (price_invalid rt p)
     (\<lambda>bad. if bad then Inr (Inl r) else thenE (parseFloat rt p) (\<lambda>n. Inr (Inr (a, n, l))))
     = Inr (Inr t) \<longleftrightarrow>
   price_is_number rt p \<and> t = (a, price_number rt p, l)"
proof (cases "price_invalid rt p")
  case (Inl e)
  then show ?thesis by (simp add: price_is_number_def)
next
  case (Inr b)
  show ?thesis
  proof (cases b)
    case True
    with Inr show ?thesis by (simp add: price_is_number_def)
  next
    case False
    with Inr have "price_is_number rt p" by (simp add: price_is_number_def)
    then show ?thesis
      using Inr False price_is_number_parseFloat [of rt p] by auto
  qed
qed

lemma validate_create_accepts_iff:
  "validate_create rt d = Inr (Inr t) \<longleftrightarrow>
     create_accepts rt d \<and> truthy (field d ''price'')
     \<and> t = (field d ''name'', price_number rt (field d ''price''), canonical_size (field d ''size''))"
proof (cases "d = Undefined \<or> d = Null")
  case True
  then show ?thesis by (auto simp: validate_create_def create_accepts_def)
next
  case False
  then have g: "\<And>k. get_prop d k = Inr (field d k)" by (simp add: get_prop_field)
  show ?thesis
  proof (cases "field d ''size''")
    case (Str z)
    show ?thesis
    proof (cases "truthy (field d ''name'') \<and> truthy (field d ''price'') \<and> z \<noteq> []
        \<and> map lower_char z \<in> set validSizes")
      case True
      then have "validate_create rt d =
          thenE (price_invalid rt (field d ''price''))
            (\<lambda>bad. if bad then Inr (Inl invalid_price)
               else thenE (parseFloat rt (field d ''price''))
                 (\<lambda>n. Inr (Inr (field d ''name'', n, map lower_char z))))"
        using Str by (simp add: validate_create_def g)
      then show ?thesis
        using True Str
        by (simp add: price_stage create_accepts_def size_in_enum_def canonical_size_def)
    next
      case False
      then have "\<And>t. validate_create rt d \<noteq> Inr (Inr t)"
        using Str by (auto simp: validate_create_def g)
      moreover have "\<not> (create_accepts rt d \<and> truthy (field d ''price''))"
        using False Str
        by (auto simp: create_accepts_def size_in_enum_def validSizes_def)
      ultimately show ?thesis by blast
    qed
  qed (auto simp: validate_create_def g create_accepts_def size_in_enum_def)
qed

lemma handleCreateItem_accepted:
  assumes "create_accepts rt d" and "truthy (field d ''price'')"
    and "fst (readItems io s) = Arr xs" and "write_ok io"
  shows "handleCreateItem rt io uuid (Some d) s =
     (sendJsonResponse 201 True ''Item created successfully.'' (created_item rt uuid d),
      writeFile (Json (JSON_stringify (Arr (xs @ [created_item rt uuid d]))))
        (snd (readItems io s)))"
proof -
  have v: "validate_create rt d =
      Inr (Inr (field d ''name'', price_number rt (field d ''price''),
                canonical_size (field d ''size'')))"
    using assms(1,2) by (simp add: validate_create_accepts_iff)
  obtain s1 where rd: "readItems io s = (Arr xs, s1)"
    using assms(3) by (cases "readItems io s") auto
  show ?thesis
    using v rd assms(4)
    by (simp add: handleCreateItem_def createItem_try_def JSON_parse_def writeItems_def
        created_item_def del: JSON_stringify.simps)
qed

lemma handleCreateItem_rejected:
  assumes "\<not> (create_accepts rt d \<and> truthy (field d ''price''))"
  shows "snd (handleCreateItem rt io uuid (Some d) s) = s
     \<and> status (fst (handleCreateItem rt io uuid (Some d) s)) \<in> {400, 500}"
proof (cases "validate_create rt d")
  case (Inl e)
  then have "createItem_try rt io uuid (Some d) s = (Inl e, s)"
    by (simp add: createItem_try_def JSON_parse_def)
  then show ?thesis using handleCreateItem_Inl by fastforce
next
  case (Inr v)
  then obtain r where "v = Inl r"
    using assms validate_create_accepts_iff [of rt d] by (cases v) auto
  with Inr have v: "validate_create rt d = Inr (Inl r)" by simp
  then have "createItem_try rt io uuid (Some d) s = (Inr r, s)"
    by (simp add: createItem_try_def JSON_parse_def)
  then show ?thesis
    using handleCreateItem_Inr validate_create_status [OF v] by fastforce
qed

section \<open>Reading back what was written\<close>

lemma set_drop_undefined:
  "set (drop_undefined kvs) \<subseteq> {p \<in> set kvs. snd p \<noteq> Undefined}"
proof (induction kvs rule: drop_undefined.induct)
  case 1
  then show ?case by simp
next
  case (2 k v kvs)
  then show ?case by (cases "v = Undefined") auto
qed

lemma is_json_JSON_stringify': "v \<noteq> Undefined \<Longrightarrow> is_json (JSON_stringify v)"
proof (induction v)
  case (Arr xs)
  have "\<forall>x\<in>set xs. is_json (undefined_to_null (JSON_stringify x))"
  proof
    fix x assume "x \<in> set xs"
    with Arr.IH show "is_json (undefined_to_null (JSON_stringify x))"
      by (cases "x = Undefined") (simp_all add: undefined_to_null_def)
  qed
  then show ?case by (simp add: list_all_iff)
next
  case (Obj kvs)
  have "\<forall>p\<in>set (drop_undefined (map (map_prod id JSON_stringify) kvs)). is_json (snd p)"
  proof
    fix p assume "p \<in> set (drop_undefined (map (map_prod id JSON_stringify) kvs))"
    then have p: "p \<in> set (map (map_prod id JSON_stringify) kvs)" "snd p \<noteq> Undefined"
      using set_drop_undefined by fastforce+
    then obtain q where q: "q \<in> set kvs" "p = map_prod id JSON_stringify q" by auto
    then have "snd q \<noteq> Undefined" using p(2) by (cases q) auto
    moreover have "snd q \<in> Basic_BNFs.snds q" by (cases q) (simp add: snds.simps)
    ultimately have "is_json (JSON_stringify (snd q))" using Obj.IH q(1) by blast
    then show "is_json (snd p)" using q(2) by (cases q) simp
  qed
  then show ?case by (simp add: list_all_iff)
qed simp_all

lemma JSON_stringify_idem: "JSON_stringify (JSON_stringify v) = JSON_stringify v"
  by (cases "v = Undefined") (simp_all add: is_json_JSON_stringify' is_json_JSON_stringify)

lemma JSON_stringify_Num_finite: "is_finite n \<Longrightarrow> JSON_stringify (Num n) = Num n"
  by simp

lemma find_append_last:
  "\<forall>y\<in>set ys. \<not> P y \<Longrightarrow> P z \<Longrightarrow> find P (ys @ [z]) = Some z"
  by (induction ys) auto

lemma is_object_newItem [simp]: "is_object (newItem u n p l)"
  by (simp add: newItem_def is_object_def)

lemma field_newItem:
  "field (newItem u n p l) ''id'' = Str u"
  "field (newItem u n p l) ''name'' = n"
  "field (newItem u n p l) ''price'' = Num p"
  "field (newItem u n p l) ''size'' = Str l"
  by (simp_all add: newItem_def field_def)

lemma handleCreateItem_201:
  assumes "status (fst (handleCreateItem rt io uuid (Some d) s)) = 201"
  shows "create_accepts rt d \<and> truthy (field d ''price'') \<and> write_ok io
     \<and> (\<exists>xs. fst (readItems io s) = Arr xs)"
proof (cases rule: createItem_try_cases [of "Some d" rt io uuid s])
  case malformed
  then show ?thesis by simp
next
  case (thrown d' e)
  then show ?thesis using handleCreateItem_Inl [OF thrown(3)] assms by (auto split: if_splits)
next
  case (invalid d' r)
  then show ?thesis
    using handleCreateItem_Inr [OF invalid(3)] validate_create_status [OF invalid(2)] assms
    by simp
next
  case (not_array d' n p l e)
  then show ?thesis using handleCreateItem_Inl [OF not_array(4)] assms by (auto split: if_splits)
next
  case (write_failed d' n p l xs)
  then show ?thesis using handleCreateItem_Inl [OF write_failed(5)] assms by simp
next
  case (created d' n p l xs)
  then show ?thesis using validate_create_accepts_iff [of rt d "(n, p, l)"] by auto
qed

lemma handleGetOneItem_found:
  assumes "doc s = Some (Json (Arr xs))" and "list_all is_object xs" and "read_ok io"
    and "find (\<lambda>x. field x ''id'' = Str itemId) xs = Some x"
  shows "handleGetOneItem io itemId s =
     (sendJsonResponse 200 True ''Successfully retrieved item.'' x, s)"
proof -
  have "x \<in> set xs" using assms(4) by (auto simp: find_Some_iff)
  then have "is_object x" using assms(2) by (simp add: list_all_iff)
  then have "truthy x" by (cases x) (simp_all add: is_object_def)
  then show ?thesis
    using assms
    by (simp add: handleGetOneItem_def getOneItem_try_def readItems_present
        find_by_id_objects)
qed

lemma data_sendJsonResponse_object:
  "is_object v \<Longrightarrow> data (sendJsonResponse c ok m v) = JSON_stringify v"
  by (cases v) (simp_all add: sendJsonResponse_def is_object_def)

section \<open>Update\<close>

lemma is_object_set_prop [simp]: "is_object (set_prop v k x) \<longleftrightarrow> is_object v"
  by (cases v) (simp_all add: is_object_def)

lemma field_set_prop:
  "is_object v \<Longrightarrow> field (set_prop v k x) k' = (if k' = k then x else field v k')"
  by (cases v) (simp_all add: is_object_def field_def update_conv')

lemma is_object_updated_item [simp]: "is_object (updated_item rt d item) \<longleftrightarrow> is_object item"
  by (simp add: updated_item_def)

lemma field_updated_item:
  assumes "is_object item"
  shows "field (updated_item rt d item) ''name'' =
      (if field d ''name'' = Undefined then field item ''name'' else field d ''name'')"
    and "field (updated_item rt d item) ''price'' =
      (if field d ''price'' = Undefined then field item ''price''
       else Num (price_number rt (field d ''price'')))"
    and "field (updated_item rt d item) ''size'' =
      (if field d ''size'' = Undefined then field item ''size''
       else Str (canonical_size (field d ''size'')))"
    and "k \<notin> {''name'', ''price'', ''size''} \<Longrightarrow> field (updated_item rt d item) k = field item k"
  using assms by (simp_all add: updated_item_def field_set_prop)

lemma get_prop_Inr_iff:
  "get_prop v k = Inr x \<longleftrightarrow> v \<noteq> Undefined \<and> v \<noteq> Null \<and> x = field v k"
  by (cases v) (auto simp: field_def)

lemma parseFloat_error:
  "parseFloat rt v = Inl e \<Longrightarrow> e = TypeError ''Cannot convert object to primitive value''"
  using toString_error [of rt v e]
  by (cases v) (auto simp: parseFloat_def thenE_Inl_iff simp del: toString.simps)

lemma parseFloat_cases:
  "parseFloat rt p =
     (if convertible p then Inr (price_number rt p)
      else Inl (TypeError ''Cannot convert object to primitive value''))"
proof (cases "parseFloat rt p")
  case (Inl e)
  then show ?thesis
    using parseFloat_error [OF Inl] parseFloat_convertible [of rt p] by auto
next
  case (Inr n)
  then show ?thesis
    using parseFloat_convertible [of rt p] by (auto simp: price_number_def)
qed

lemma assign_fields_Inr_iff:
  assumes "is_object item"
  shows "assign_fields rt d item = Inr item' \<longleftrightarrow>
     d \<noteq> Undefined \<and> d \<noteq> Null
     \<and> (field d ''size'' = Undefined \<or> (\<exists>t. field d ''size'' = Str t))
     \<and> convertible (field d ''price'')
     \<and> item' = updated_item rt d item"
proof (cases "d = Undefined \<or> d = Null")
  case True
  then show ?thesis by (auto simp: assign_fields_def)
next
  case False
  then have g: "\<And>k. get_prop d k = Inr (field d k)" by (simp add: get_prop_field)
  have h: "\<And>v k. is_object v \<Longrightarrow> get_prop v k = Inr (field v k)"
    by (simp add: get_prop_object)
  show ?thesis
  proof (cases "convertible (field d ''price'')")
    case c: True
    show ?thesis
    proof (cases "field d ''size''")
      case Undefined
      then show ?thesis
        using False assms c
        by (auto simp: assign_fields_def g h Let_def updated_item_def field_set_prop
            parseFloat_cases)
    next
      case (Str t)
      then show ?thesis
        using False assms c
        by (auto simp: assign_fields_def g h Let_def updated_item_def canonical_size_def
            field_set_prop parseFloat_cases)
    qed (use False assms c in \<open>auto simp: assign_fields_def g h Let_def parseFloat_cases\<close>)
  next
    case c: False
    then have "field d ''price'' \<noteq> Undefined" by auto
    then show ?thesis
      using False assms c by (simp add: assign_fields_def g h Let_def parseFloat_cases)
  qed
qed

lemma price_check_None_iff:
  "thenE (price_invalid rt p) (\<lambda>bad. Inr (if bad then Some r else None)) = Inr None
     \<longleftrightarrow> price_is_number rt p"
  by (cases "price_invalid rt p") (auto simp: price_is_number_def)

lemma validate_update_None_iff:
  assumes "is_object item" and "d \<noteq> Undefined" and "d \<noteq> Null"
    and "field d ''size'' = Undefined \<or> (\<exists>t. field d ''size'' = Str t)"
  shows "validate_update rt d (updated_item rt d item) = Inr None \<longleftrightarrow> update_accepts rt d"
proof -
  have g: "\<And>k. get_prop d k = Inr (field d k)" using assms(2,3) by (simp add: get_prop_field)
  have h: "get_prop (updated_item rt d item) ''size'' =
      Inr (field (updated_item rt d item) ''size'')"
    using assms(1) by (simp add: get_prop_object)
  from assms(4) show ?thesis
  proof
    assume "field d ''size'' = Undefined"
    then show ?thesis
      by (simp add: validate_update_def g h update_accepts_def price_check_None_iff)
  next
    assume "\<exists>t. field d ''size'' = Str t"
    then obtain t where t: "field d ''size'' = Str t" by blast
    show ?thesis
    proof (cases "map lower_char t \<in> set validSizes")
      case True
      then show ?thesis
        using assms(1) t
        by (auto simp: validate_update_def g h update_accepts_def price_check_None_iff
            field_updated_item size_in_enum_def canonical_size_def)
    next
      case False
      then show ?thesis
        using assms(1) t
        by (auto simp: validate_update_def g h update_accepts_def
            field_updated_item size_in_enum_def canonical_size_def)
    qed
  qed
qed

lemma findIndex_Some:
  "findIndex itemId xs = Inr (Some i) \<Longrightarrow>
   i < length xs \<and> is_object (xs ! i) \<and> field (xs ! i) ''id'' = Str itemId
   \<and> (\<forall>j<i. field (xs ! j) ''id'' \<noteq> Str itemId)"
proof (induction xs arbitrary: i)
  case Nil
  then show ?case by simp
next
  case (Cons x xs)
  from Cons.prems obtain b where b: "has_id itemId x = Inr b"
    by (auto simp: thenE_Inr_iff)
  show ?case
  proof (cases b)
    case True
    with Cons.prems b have "i = 0" by simp
    then show ?thesis using has_id_True b True by auto
  next
    case False
    with Cons.prems b obtain n where n: "findIndex itemId xs = Inr (Some n)" "i = Suc n"
      by (auto simp: thenE_Inr_iff)
    have x: "field x ''id'' \<noteq> Str itemId"
      using b False by (cases x) (auto simp: has_id_def field_def)
    from Cons.IH [OF n(1)] n(2) x show ?thesis
      by (auto simp: less_Suc_eq_0_disj)
  qed
qed

lemma update_accepts_size:
  "update_accepts rt d \<Longrightarrow> field d ''size'' = Undefined \<or> (\<exists>t. field d ''size'' = Str t)"
  by (cases "field d ''size''") (auto simp: update_accepts_def size_in_enum_def)

lemma readItems_found:
  assumes "fst (readItems io s) = Arr xs" and "findIndex itemId xs = Inr (Some i)"
  shows "readItems io s = (Arr xs, s)"
proof -
  from assms(2) obtain y ys where "xs = y # ys" by (cases xs) auto
  with assms(1) readItems_nonempty [of io s y ys] show ?thesis
    by (cases "readItems io s") simp
qed

lemma handleUpdateItem_accepted:
  assumes "fst (readItems io s) = Arr xs" and "findIndex itemId xs = Inr (Some i)"
    and "d \<noteq> Undefined" and "d \<noteq> Null" and "update_accepts rt d" and "write_ok io"
  shows "handleUpdateItem rt io itemId (Some d) s =
     (sendJsonResponse 200 True ''Item updated successfully.'' (updated_item rt d (xs ! i)),
      writeFile (Json (JSON_stringify (Arr (xs[i := updated_item rt d (xs ! i)])))) s)"
proof -
  have rd: "readItems io s = (Arr xs, s)" using readItems_found [OF assms(1,2)] .
  have obj: "is_object (xs ! i)" using findIndex_Some [OF assms(2)] by simp
  have sz: "field d ''size'' = Undefined \<or> (\<exists>t. field d ''size'' = Str t)"
    using assms(5) by (rule update_accepts_size)
  have cv: "convertible (field d ''price'')"
    using assms(5) price_is_number_convertible [of rt "field d ''price''"]
    by (auto simp: update_accepts_def)
  have af: "assign_fields rt d (xs ! i) = Inr (updated_item rt d (xs ! i))"
    using assms(3,4) sz cv by (simp add: assign_fields_Inr_iff [OF obj])
  have vu: "validate_update rt d (updated_item rt d (xs ! i)) = Inr None"
    using assms(5) by (simp add: validate_update_None_iff [OF obj assms(3,4) sz])
  show ?thesis
    using rd assms(2,6) af vu
    by (simp add: handleUpdateItem_def updateItem_try_def JSON_parse_def writeItems_def
        del: JSON_stringify.simps)
qed

lemma handleUpdateItem_200:
  assumes "status (fst (handleUpdateItem rt io itemId (Some d) s)) = 200"
  shows "\<exists>xs i. fst (readItems io s) = Arr xs \<and> findIndex itemId xs = Inr (Some i)
     \<and> d \<noteq> Undefined \<and> d \<noteq> Null \<and> update_accepts rt d \<and> write_ok io"
proof (cases rule: updateItem_try_cases [of "Some d" rt io itemId s])
  case malformed
  then show ?thesis by simp
next
  case (not_array d' e)
  then show ?thesis using handleUpdateItem_Inl [OF not_array(3)] assms by (auto split: if_splits)
next
  case (thrown_find d' xs e)
  then show ?thesis using handleUpdateItem_Inl [OF thrown_find(4)] assms by (auto split: if_splits)
next
  case (absent d' xs)
  then show ?thesis using handleUpdateItem_Inr [OF absent(4)] assms by (simp add: not_found_def)
next
  case (thrown_assign d' xs i e)
  then show ?thesis using handleUpdateItem_Inl [OF thrown_assign(5)] assms by (auto split: if_splits)
next
  case (thrown_validate d' xs i item' e)
  then show ?thesis
    using handleUpdateItem_Inl [OF thrown_validate(6)] assms by (auto split: if_splits)
next
  case (invalid d' xs i item' r)
  then show ?thesis
    using handleUpdateItem_Inr [OF invalid(6)] validate_update_status [OF invalid(5)] assms
    by simp
next
  case (write_failed d' xs i item')
  then show ?thesis using handleUpdateItem_Inl [OF write_failed(7)] assms by simp
next
  case (updated d' xs i item')
  have obj: "is_object (xs ! i)" using findIndex_Some [OF updated(3)] by simp
  have d: "d' = d" using updated(1) by simp
  have a: "d \<noteq> Undefined \<and> d \<noteq> Null
     \<and> (field d ''size'' = Undefined \<or> (\<exists>t. field d ''size'' = Str t))
     \<and> convertible (field d ''price'')
     \<and> item' = updated_item rt d (xs ! i)"
    using updated(4) unfolding d assign_fields_Inr_iff [OF obj] .
  then have "update_accepts rt d"
    using updated(5) validate_update_None_iff [OF obj, of d rt] unfolding d by simp
  then show ?thesis using updated(2,3,6) a by blast
qed





lemma readItems_doc_cases:
  "doc s = Some (Json v) \<Longrightarrow> fst (readItems io s) = v \<or> fst (readItems io s) = Arr []"
  by (simp add: readItems_def readItems_try_def)

lemma JSON_stringify_list_update:
  assumes "list_all is_json xs" and "is_object y"
  shows "JSON_stringify (Arr (xs[i := y])) = Arr (xs[i := JSON_stringify y])"
proof -
  have "map (\<lambda>x. undefined_to_null (JSON_stringify x)) xs = xs"
    using assms(1)
    by (induction xs) (auto simp: is_json_JSON_stringify undefined_to_null_def)
  then have "map (\<lambda>x. undefined_to_null (JSON_stringify x)) (xs[i := y]) =
      xs[i := undefined_to_null (JSON_stringify y)]"
    by (simp add: map_update)
  then show ?thesis using assms(2) by (simp add: comp_def)
qed

lemma is_json_field: "is_json v \<Longrightarrow> JSON_stringify (field v k) = field v k"
  using field_JSON_stringify [of v k] by (simp add: is_json_JSON_stringify)

section \<open>The invariant of the persisted items\<close>

lemma item_ok_JSON_stringify: "item_ok v \<Longrightarrow> item_ok (JSON_stringify v)"
  by (auto simp: item_ok_def field_JSON_stringify split: jsval.splits)

lemma item_ok_object: "item_ok v \<Longrightarrow> is_object v"
  by (simp add: item_ok_def)

lemma every_item_written:
  assumes "list_all item_ok zs"
  shows "every_item item_ok (writeFile (Json (JSON_stringify (Arr zs))) s)"
proof -
  have "list_all is_object zs" using assms by (simp add: list_all_iff item_ok_object)
  then have "JSON_stringify (Arr zs) = Arr (map JSON_stringify zs)"
    by (rule JSON_stringify_objects)
  moreover have "list_all item_ok (map JSON_stringify zs)"
    using assms by (simp add: list_all_iff item_ok_JSON_stringify)
  ultimately show ?thesis
    by (simp add: every_item_def writeFile_def del: JSON_stringify.simps)
qed

lemma every_item_readItems:
  assumes "every_item item_ok s"
  shows "every_item item_ok (snd (readItems io s))"
    and "\<exists>xs. fst (readItems io s) = Arr xs \<and> list_all item_ok xs"
  using assms
  by (auto simp: every_item_def readItems_def readItems_try_def writeFile_def
      split: option.splits document.splits jsval.splits)

lemma item_ok_created:
  assumes "runtime_ok rt" and "create_accepts rt d" and "uuid \<noteq> []"
  shows "item_ok (created_item rt uuid d)"
proof -
  have "is_finite (price_number rt (field d ''price''))"
    using assms(1,2) by (simp add: create_accepts_def parseFloat_finite)
  moreover have "canonical_size (field d ''size'') \<in> set validSizes"
    using assms(2)
    by (auto simp: create_accepts_def size_in_enum_def canonical_size_def split: jsval.splits)
  ultimately show ?thesis
    using assms(3) by (simp add: item_ok_def created_item_def field_newItem)
qed

lemma item_ok_updated:
  assumes "runtime_ok rt" and "update_accepts rt d" and "item_ok x"
  shows "item_ok (updated_item rt d x)"
proof -
  have obj: "is_object x" using assms(3) by (rule item_ok_object)
  have p: "field d ''price'' \<noteq> Undefined \<Longrightarrow> is_finite (price_number rt (field d ''price''))"
    using assms(1,2) by (auto simp: update_accepts_def parseFloat_finite)
  have z: "field d ''size'' \<noteq> Undefined \<Longrightarrow> canonical_size (field d ''size'') \<in> set validSizes"
    using assms(2)
    by (auto simp: update_accepts_def size_in_enum_def canonical_size_def split: jsval.splits)
  have i: "field (updated_item rt d x) ''id'' = field x ''id''"
    using field_updated_item(4) [OF obj] by simp
  show ?thesis
    using assms(3) obj p z i
    by (auto simp: item_ok_def field_updated_item(2,3) [OF obj])
qed

lemma create_preserves:
  assumes "runtime_ok rt" and "uuid \<noteq> []" and "every_item item_ok s"
  shows "every_item item_ok (snd (handleCreateItem rt io uuid b s))"
proof (cases rule: createItem_try_cases [of b rt io uuid s])
  case malformed
  then show ?thesis using handleCreateItem_Inl assms(3) by fastforce
next
  case (thrown d e)
  then show ?thesis using handleCreateItem_Inl assms(3) by fastforce
next
  case (invalid d r)
  then show ?thesis using handleCreateItem_Inr assms(3) by fastforce
next
  case (not_array d n p l e)
  then show ?thesis
    using handleCreateItem_Inl [OF not_array(4)] every_item_readItems(1) [OF assms(3)] by simp
next
  case (write_failed d n p l xs)
  then show ?thesis
    using handleCreateItem_Inl [OF write_failed(5)] every_item_readItems(1) [OF assms(3)] by simp
next
  case (created d n p l xs)
  have acc: "create_accepts rt d" and t: "newItem uuid n p l = created_item rt uuid d"
    using created(2) by (simp_all add: validate_create_accepts_iff created_item_def)
  have "list_all item_ok xs"
    using every_item_readItems(2) [OF assms(3), of io] created(3) by simp
  then have "list_all item_ok (xs @ [newItem uuid n p l])"
    using item_ok_created [OF assms(1) acc assms(2)] t by simp
  then show ?thesis
    using handleCreateItem_Inr [OF created(5)] every_item_written
    by (simp del: JSON_stringify.simps)
qed

lemma update_preserves:
  assumes "runtime_ok rt" and "every_item item_ok s"
  shows "every_item item_ok (snd (handleUpdateItem rt io itemId b s))"
proof (cases rule: updateItem_try_cases [of b rt io itemId s])
  case malformed
  then show ?thesis using handleUpdateItem_Inl assms(2) by fastforce
next
  case (not_array d e)
  then show ?thesis
    using handleUpdateItem_Inl [OF not_array(3)] every_item_readItems(1) [OF assms(2)] by simp
next
  case (thrown_find d xs e)
  then show ?thesis
    using handleUpdateItem_Inl [OF thrown_find(4)] every_item_readItems(1) [OF assms(2)] by simp
next
  case (absent d xs)
  then show ?thesis
    using handleUpdateItem_Inr [OF absent(4)] every_item_readItems(1) [OF assms(2)] by simp
next
  case (thrown_assign d xs i e)
  then show ?thesis using handleUpdateItem_Inl assms(2) by fastforce
next
  case (thrown_validate d xs i item' e)
  then show ?thesis using handleUpdateItem_Inl assms(2) by fastforce
next
  case (invalid d xs i item' r)
  then show ?thesis using handleUpdateItem_Inr assms(2) by fastforce
next
  case (write_failed d xs i item')
  then show ?thesis using handleUpdateItem_Inl assms(2) by fastforce
next
  case (updated d xs i item')
  have all: "list_all item_ok xs"
    using every_item_readItems(2) [OF assms(2), of io] updated(2) by simp
  note fs = findIndex_Some [OF updated(3)]
  have obj: "is_object (xs ! i)" using fs by simp
  have a: "d \<noteq> Undefined \<and> d \<noteq> Null
     \<and> (field d ''size'' = Undefined \<or> (\<exists>t. field d ''size'' = Str t))
     \<and> convertible (field d ''price'')
     \<and> item' = updated_item rt d (xs ! i)"
    using updated(4) unfolding assign_fields_Inr_iff [OF obj] .
  then have acc: "update_accepts rt d"
    using updated(5) validate_update_None_iff [OF obj, of d rt] by simp
  have "item_ok (xs ! i)" using all fs by (simp add: list_all_length)
  then have "item_ok item'" using item_ok_updated [OF assms(1) acc] a by simp
  then have "list_all item_ok (xs[i := item'])"
    using all by (auto simp: list_all_iff dest: set_update_subset_insert [THEN subsetD])
  then show ?thesis
    using handleUpdateItem_Inr [OF updated(7)] every_item_written
    by (simp del: JSON_stringify.simps)
qed

lemma filter_other_subset: "filter_other i xs = Inr ys \<Longrightarrow> set ys \<subseteq> set xs"
proof (induction xs arbitrary: ys)
  case Nil
  then show ?case by simp
next
  case (Cons x xs)
  then show ?case by (fastforce simp: thenE_Inr_iff split: if_splits)
qed

lemma delete_preserves:
  assumes "every_item item_ok s"
  shows "every_item item_ok (snd (handleDeleteItem io itemId s))"
proof -
  obtain xs where rd: "fst (readItems io s) = Arr xs" and all: "list_all item_ok xs"
    using every_item_readItems(2) [OF assms, of io] by blast
  obtain s1 where s1: "readItems io s = (Arr xs, s1)"
    using rd by (cases "readItems io s") simp
  have i1: "every_item item_ok s1"
    using every_item_readItems(1) [OF assms, of io] s1 by simp
  show ?thesis
  proof (cases "filter_other itemId xs")
    case (Inl e)
    then show ?thesis
      using s1 i1 by (simp add: handleDeleteItem_def deleteItem_try_def)
  next
    case (Inr ys)
    then have "list_all item_ok ys"
      using filter_other_subset [OF Inr] all by (auto simp: list_all_iff)
    then have "every_item item_ok (writeFile (Json (JSON_stringify (Arr ys))) s1)"
      by (rule every_item_written)
    then show ?thesis
      using s1 i1 Inr
      by (simp add: handleDeleteItem_def deleteItem_try_def writeItems_def
          del: JSON_stringify.simps)
  qed
qed

lemma get_preserves:
  assumes "every_item item_ok s"
  shows "every_item item_ok (snd (handleGetAllItems io s))"
    and "every_item item_ok (snd (handleGetOneItem io itemId s))"
  using every_item_readItems(1) [OF assms, of io]
  by (auto simp: handleGetAllItems_def handleGetOneItem_def getOneItem_try_def
      split: prod.splits sum.splits)

lemma apiServer_preserves:
  assumes "runtime_ok rt" and "uuid \<noteq> []" and "every_item item_ok s"
  shows "every_item item_ok (snd (apiServer rt io uuid req s))"
  using create_preserves [OF assms] update_preserves [OF assms(1,3)]
    delete_preserves [OF assms(3)] get_preserves [OF assms(3)] assms(3)
  by (cases "url_parts (url req)") (auto simp: apiServer_def split: option.splits)

lemma run_preserves:
  assumes "runtime_ok rt"
  shows "every_item item_ok s \<Longrightarrow> \<forall>(io, uuid, req)\<in>set rs. uuid \<noteq> [] \<Longrightarrow>
     every_item item_ok (run rt rs s)"
proof (induction rs arbitrary: s)
  case Nil
  then show ?case by (simp add: run_def)
next
  case (Cons r rs)
  obtain io uuid req where r: "r = (io, uuid, req)" by (cases r) auto
  with Cons.prems have "every_item item_ok (serve rt s r)"
    using apiServer_preserves [OF assms] by (simp add: serve_def)
  then have "every_item item_ok (run rt rs (serve rt s r))"
    using Cons.IH Cons.prems(2) by simp
  then show ?case by (simp add: run_def)
qed

section \<open>The persisted document\<close>

text \<open>
  C1, as the specification states it, fails: from the empty store, one create with the
  price -1 persists an item whose price is below 0.
\<close>

theorem persisted_negative_price_counterexample:
  "doc (run example_runtime [(io_ok, ''u1'', create_X)] empty_fs) =
     Some (Json (Arr [Obj [(''id'', Str ''u1''), (''name'', Str ''X''),
       (''price'', Num (Fin (- 1))), (''size'', Str ''m'')]]))
   \<and> \<not> every_item spec_item_ok (run example_runtime [(io_ok, ''u1'', create_X)] empty_fs)"
  by code_simp

text \<open>
  C1, amended. After any sequence of requests (creates, updates, deletes and reads, with
  any outcome of their file system calls) that starts from an absent or empty
  document, in which every id drawn is a string that is not empty: the persisted
  document is absent or an array, and every item in it is an object with an id that is
  a string and not empty, a price that is a finite number (of either sign), and a size
  in the enumeration s, m, l.
\<close>

theorem persisted_items_invariant:
  assumes "runtime_ok rt" and "doc s = None \<or> doc s = Some (Json (Arr []))"
    and "\<forall>(io, uuid, req)\<in>set rs. uuid \<noteq> []"
  shows "every_item item_ok (run rt rs s)"
proof -
  have "every_item item_ok s" using assms(2) by (auto simp: every_item_def)
  then show ?thesis using run_preserves [OF assms(1) _ assms(3)] by simp
qed

theorem persisted_items_invariant_witness:
  "runtime_ok example_runtime \<and> doc empty_fs = None
   \<and> ''u1'' \<noteq> [] \<and> ''u2'' \<noteq> []
   \<and> every_item item_ok
       (run example_runtime
          [(io_ok, ''u1'', create_X), (io_ok, ''u2'', create_Y), (io_ok, ''u3'', update_u1),
           (io_ok, ''u4'', delete_u2)] empty_fs)
   \<and> doc (run example_runtime
          [(io_ok, ''u1'', create_X), (io_ok, ''u2'', create_Y), (io_ok, ''u3'', update_u1),
           (io_ok, ''u4'', delete_u2)] empty_fs) =
       Some (Json (Arr [Obj [(''id'', Str ''u1''), (''name'', Str ''X''),
         (''price'', Num (Fin 7)), (''size'', Str ''m'')]]))"
proof -
  have e: "doc empty_fs = None"
    by (simp add: empty_fs_def)
  have u: "\<forall>(io, uuid, req)\<in>set [(io_ok, ''u1'', create_X), (io_ok, ''u2'', create_Y),
      (io_ok, ''u3'', update_u1), (io_ok, ''u4'', delete_u2)]. uuid \<noteq> []"
    by simp
  have d: "doc (run example_runtime
          [(io_ok, ''u1'', create_X), (io_ok, ''u2'', create_Y), (io_ok, ''u3'', update_u1),
           (io_ok, ''u4'', delete_u2)] empty_fs) =
       Some (Json (Arr [Obj [(''id'', Str ''u1''), (''name'', Str ''X''),
         (''price'', Num (Fin 7)), (''size'', Str ''m'')]]))"
    by code_simp
  from e have e': "doc empty_fs = None \<or> doc empty_fs = Some (Json (Arr []))" by simp
  show ?thesis
    using runtime_ok_example e d persisted_items_invariant [OF runtime_ok_example e' u]
    by simp
qed

section \<open>What create accepts\<close>

text \<open>
  C2, as the specification states it, fails: the payload with name X, price -1 and size
  m does not pass the specification's validation rule (its price is negative), and
  create answers 201.
\<close>

theorem create_negative_price_counterexample:
  "\<not> spec_validateForCreate example_runtime
        (Obj [(''name'', Str ''X''), (''price'', Num (Fin (- 1))), (''size'', Str ''m'')])
   \<and> status (fst (handleCreateItem example_runtime io_ok ''u1''
        (Some (Obj [(''name'', Str ''X''), (''price'', Num (Fin (- 1))), (''size'', Str ''m'')]))
        empty_fs)) = 201"
  by code_simp

text \<open>
  A price that is the number 0 is taken for a missing field: \<^verbatim>\<open>!newItemData.price\<close> is
  true for it.
\<close>

lemma create_price_zero_rejected:
  "status (fst (handleCreateItem example_runtime io_ok ''u1''
      (Some (Obj [(''name'', Str ''X''), (''price'', Num (Fin 0)), (''size'', Str ''m'')]))
      empty_fs)) = 400
   \<and> message (fst (handleCreateItem example_runtime io_ok ''u1''
      (Some (Obj [(''name'', Str ''X''), (''price'', Num (Fin 0)), (''size'', Str ''m'')]))
      empty_fs)) = ''Missing required fields: name, price, and size are mandatory.''"
  by code_simp

text \<open>
  A price that is an object with an own property named \<^verbatim>\<open>toString\<close> makes
  \<^verbatim>\<open>parseFloat\<close> throw: create answers 500 and writes nothing.
\<close>

lemma create_price_not_convertible:
  "status (fst (handleCreateItem example_runtime io_ok ''u1''
      (Some (Obj [(''name'', Str ''X''), (''price'', Obj [(''toString'', Num (Fin 1))]),
                  (''size'', Str ''m'')])) empty_fs)) = 500
   \<and> snd (handleCreateItem example_runtime io_ok ''u1''
      (Some (Obj [(''name'', Str ''X''), (''price'', Obj [(''toString'', Num (Fin 1))]),
                  (''size'', Str ''m'')])) empty_fs) = empty_fs"
  by code_simp

text \<open>
  C2, amended. For every payload whose price is not the number 0, when the loaded
  collection is an array and the write succeeds: create answers 201 if and only if
  the name is present and not empty, the price is present and is read as a finite
  number (of either sign), and the size is a string that is, without regard to case,
  in the enumeration. Then the response carries the new item (the fresh id, the name,
  the price as a number, the size in lower case) and the persisted document is the
  collection with the new item appended. Otherwise nothing is written.
\<close>

theorem create_acceptance:
  assumes "runtime_ok rt" and "fst (readItems io s) = Arr xs" and "write_ok io"
    and "field d ''price'' \<noteq> Num (Fin 0)"
  shows "(status (fst (handleCreateItem rt io uuid (Some d) s)) = 201 \<longleftrightarrow> create_accepts rt d)
     \<and> (create_accepts rt d \<longrightarrow>
          fst (handleCreateItem rt io uuid (Some d) s) =
            sendJsonResponse 201 True ''Item created successfully.'' (created_item rt uuid d)
        \<and> doc (snd (handleCreateItem rt io uuid (Some d) s)) =
            Some (Json (JSON_stringify (Arr (xs @ [created_item rt uuid d])))))
     \<and> (\<not> create_accepts rt d \<longrightarrow> snd (handleCreateItem rt io uuid (Some d) s) = s)"
proof (cases "create_accepts rt d")
  case True
  then have "truthy (field d ''price'')"
    using assms(1,4) by (simp add: create_accepts_def price_truthy)
  then show ?thesis
    using True handleCreateItem_accepted [OF True _ assms(2,3), of uuid]
    by (simp add: writeFile_def del: JSON_stringify.simps)
next
  case False
  then show ?thesis
    using handleCreateItem_rejected [of rt d io uuid s] by auto
qed

theorem create_acceptance_witness:
  "runtime_ok example_runtime \<and> fst (readItems io_ok one_item_fs) = Arr [item_A]
   \<and> write_ok io_ok
   \<and> field (Obj [(''name'', Str ''X''), (''price'', Num (Fin (- 1))), (''size'', Str ''M'')])
        ''price'' \<noteq> Num (Fin 0)
   \<and> create_accepts example_runtime
        (Obj [(''name'', Str ''X''), (''price'', Num (Fin (- 1))), (''size'', Str ''M'')])
   \<and> status (fst (handleCreateItem example_runtime io_ok ''u1''
        (Some (Obj [(''name'', Str ''X''), (''price'', Num (Fin (- 1))), (''size'', Str ''M'')]))
        one_item_fs)) = 201
   \<and> doc (snd (handleCreateItem example_runtime io_ok ''u1''
        (Some (Obj [(''name'', Str ''X''), (''price'', Num (Fin (- 1))), (''size'', Str ''M'')]))
        one_item_fs)) =
      Some (Json (Arr [item_A,
        Obj [(''id'', Str ''u1''), (''name'', Str ''X''), (''price'', Num (Fin (- 1))),
             (''size'', Str ''m'')]]))
   \<and> \<not> create_accepts example_runtime
        (Obj [(''name'', Str ''X''), (''price'', Num (Fin 1)), (''size'', Str ''xl'')])
   \<and> status (fst (handleCreateItem example_runtime io_ok ''u1''
        (Some (Obj [(''name'', Str ''X''), (''price'', Num (Fin 1)), (''size'', Str ''xl'')]))
        one_item_fs)) \<noteq> 201
   \<and> snd (handleCreateItem example_runtime io_ok ''u1''
        (Some (Obj [(''name'', Str ''X''), (''price'', Num (Fin 1)), (''size'', Str ''xl'')]))
        one_item_fs) = one_item_fs"
proof -
  let ?d = "Obj [(''name'', Str ''X''), (''price'', Num (Fin (- 1))), (''size'', Str ''M'')]"
  let ?e = "Obj [(''name'', Str ''X''), (''price'', Num (Fin 1)), (''size'', Str ''xl'')]"
  have rd: "fst (readItems io_ok one_item_fs) = Arr [item_A]"
    by (simp add: readItems_def readItems_try_def io_ok_def one_item_fs_def)
  have w: "write_ok io_ok"
    by (simp add: io_ok_def)
  have p: "field ?d ''price'' \<noteq> Num (Fin 0)" "field ?e ''price'' \<noteq> Num (Fin 0)"
    by (simp_all add: field_def)
  have a: "create_accepts example_runtime ?d"
    by code_simp
  have n: "\<not> create_accepts example_runtime ?e"
    by code_simp
  have j: "JSON_stringify (Arr ([item_A] @ [created_item example_runtime ''u1'' ?d])) =
      Arr [item_A, Obj [(''id'', Str ''u1''), (''name'', Str ''X''),
        (''price'', Num (Fin (- 1))), (''size'', Str ''m'')]]"
    by code_simp
  note t1 = create_acceptance [OF runtime_ok_example rd w p(1), of "''u1''"]
  note t2 = create_acceptance [OF runtime_ok_example rd w p(2), of "''u1''"]
  from t1 a have c1: "status (fst (handleCreateItem example_runtime io_ok ''u1'' (Some ?d)
        one_item_fs)) = 201
      \<and> doc (snd (handleCreateItem example_runtime io_ok ''u1'' (Some ?d) one_item_fs)) =
        Some (Json (Arr [item_A, Obj [(''id'', Str ''u1''), (''name'', Str ''X''),
          (''price'', Num (Fin (- 1))), (''size'', Str ''m'')]]))"
    unfolding j by blast
  from t2 n have c2: "status (fst (handleCreateItem example_runtime io_ok ''u1'' (Some ?e)
        one_item_fs)) \<noteq> 201
      \<and> snd (handleCreateItem example_runtime io_ok ''u1'' (Some ?e) one_item_fs) = one_item_fs"
    by blast
  show ?thesis
    using runtime_ok_example rd w p(1) a n c1 c2 by simp
qed

section \<open>What update validates\<close>


text \<open>
  Update does not look at the name it is given: the empty string is stored.
\<close>

lemma update_empty_name_accepted:
  "status (fst (handleUpdateItem example_runtime io_ok ''a1''
      (Some (Obj [(''name'', Str [])])) one_item_fs)) = 200
   \<and> doc (snd (handleUpdateItem example_runtime io_ok ''a1''
      (Some (Obj [(''name'', Str [])])) one_item_fs)) =
     Some (Json (Arr [Obj [(''id'', Str ''a1''), (''name'', Str []), (''price'', Num (Fin 1)),
       (''size'', Str ''s'')]]))"
  by code_simp



section \<open>A size that is not a string\<close>

text \<open>
  A size that is a string outside the enumeration is answered 400 with the size in the
  message, on create (for a size that is not empty, the name and the price being
  present) and on update of an item of the collection (for a price that the
  conversion to a number does not throw on).
\<close>

lemma create_invalid_string_size:
  assumes "truthy (field d ''name'')" and "truthy (field d ''price'')"
    and "field d ''size'' = Str t" and "t \<noteq> []" and "map lower_char t \<notin> set validSizes"
  shows "handleCreateItem rt io uuid (Some d) s =
     (sendJsonResponse 400 False
        (''Invalid size '' @ [CHR 0x27] @ t @ [CHR 0x27] @ ''. Must be 's', 'm', or 'l'.'') Null, s)"
proof -
  have "d \<noteq> Undefined" "d \<noteq> Null" using assms(3) by auto
  then have g: "\<And>k. get_prop d k = Inr (field d k)" by (simp add: get_prop_field)
  have "validate_create rt d = Inr (Inl (invalid_size t))"
    using assms by (simp add: validate_create_def g)
  then show ?thesis
    by (simp add: handleCreateItem_def createItem_try_def JSON_parse_def invalid_size_def)
qed

lemma update_invalid_string_size:
  assumes "fst (readItems io s) = Arr xs" and "findIndex itemId xs = Inr (Some i)"
    and "field d ''size'' = Str t" and "map lower_char t \<notin> set validSizes"
    and "convertible (field d ''price'')"
  shows "handleUpdateItem rt io itemId (Some d) s =
     (sendJsonResponse 400 False
        (''Invalid size '' @ [CHR 0x27] @ t @ [CHR 0x27] @ ''. Must be 's', 'm', or 'l'.'') Null, s)"
proof -
  have d: "d \<noteq> Undefined" "d \<noteq> Null" using assms(3) by auto
  then have g: "\<And>k. get_prop d k = Inr (field d k)" by (simp add: get_prop_field)
  have rd: "readItems io s = (Arr xs, s)" using readItems_found [OF assms(1,2)] .
  have obj: "is_object (xs ! i)" using findIndex_Some [OF assms(2)] by simp
  have af: "assign_fields rt d (xs ! i) = Inr (updated_item rt d (xs ! i))"
    using d assms(3,5) by (simp add: assign_fields_Inr_iff [OF obj])
  have "validate_update rt d (updated_item rt d (xs ! i)) = Inr (Some (invalid_size t))"
    using assms(3,4) obj
    by (auto simp: validate_update_def g get_prop_object field_updated_item canonical_size_def)
  then show ?thesis
    using rd assms(2) af
    by (simp add: handleUpdateItem_def updateItem_try_def JSON_parse_def invalid_size_def)
qed

text \<open>
  C4. A size outside the enumeration is to be answered 400, also when it is not a
  string. For the size \<^verbatim>\<open>5\<close> the call of \<^verbatim>\<open>toLowerCase\<close> throws a TypeError, and
  both create and update answer 500 with the message of an internal server error.
\<close>

theorem size_of_wrong_type_answers_500:
  "status (fst (handleCreateItem example_runtime io_ok ''u1''
      (Some (Obj [(''name'', Str ''X''), (''price'', Num (Fin 1)), (''size'', Num (Fin 5))]))
      empty_fs)) = 500
   \<and> message (fst (handleCreateItem example_runtime io_ok ''u1''
      (Some (Obj [(''name'', Str ''X''), (''price'', Num (Fin 1)), (''size'', Num (Fin 5))]))
      empty_fs))
     = ''Internal server error while creating item: newItemData.size.toLowerCase is not a function''
   \<and> status (fst (handleUpdateItem example_runtime io_ok ''a1''
      (Some (Obj [(''size'', Num (Fin 5))])) one_item_fs)) = 500
   \<and> status (fst (handleUpdateItem example_runtime io_ok ''a1''
      (Some (Obj [(''size'', Null)])) one_item_fs)) = 500"
  by code_simp

section \<open>Create, then get\<close>

text \<open>
  What holds of a payload that create accepts and whose price is not the number 0,
  when the loaded collection is an array of objects, none of which has the id drawn, the
  id drawn is not empty and the file system calls succeed: create answers 201, and
  getting the item by the id drawn answers 200 with the item that create returned. Its
  id is the one drawn, its name is the name of the payload (as JSON; the same string
  when the name is a string), its price is the finite number read from the payload's
  price (the same number when the price is a number), and its size is the payload's
  size in lower case.
\<close>

lemma create_then_get:
  assumes "runtime_ok rt"
    and "create_accepts rt d" and "field d ''price'' \<noteq> Num (Fin 0)"
    and "fst (readItems io s) = Arr xs" and "list_all is_object xs" and "write_ok io"
    and "uuid \<noteq> []" and "\<forall>x\<in>set xs. field x ''id'' \<noteq> Str uuid"
    and "read_ok io'"
  shows "status (fst (handleCreateItem rt io uuid (Some d) s)) = 201
     \<and> status (fst (handleGetOneItem io' uuid (snd (handleCreateItem rt io uuid (Some d) s)))) = 200
     \<and> data (fst (handleGetOneItem io' uuid (snd (handleCreateItem rt io uuid (Some d) s))))
         = data (fst (handleCreateItem rt io uuid (Some d) s))
     \<and> (\<exists>i. i \<noteq> [] \<and> field (data (fst (handleCreateItem rt io uuid (Some d) s))) ''id'' = Str i)
     \<and> field (data (fst (handleCreateItem rt io uuid (Some d) s))) ''id'' = Str uuid
     \<and> field (data (fst (handleCreateItem rt io uuid (Some d) s))) ''name''
         = JSON_stringify (field d ''name'')
     \<and> (\<forall>t. field d ''name'' = Str t \<longrightarrow>
          field (data (fst (handleCreateItem rt io uuid (Some d) s))) ''name'' = Str t)
     \<and> field (data (fst (handleCreateItem rt io uuid (Some d) s))) ''price''
         = Num (price_number rt (field d ''price''))
     \<and> is_finite (price_number rt (field d ''price''))
     \<and> (\<forall>n. field d ''price'' = Num n \<longrightarrow>
          field (data (fst (handleCreateItem rt io uuid (Some d) s))) ''price'' = Num n)
     \<and> field (data (fst (handleCreateItem rt io uuid (Some d) s))) ''size''
         = Str (canonical_size (field d ''size''))"
proof -
  let ?item = "created_item rt uuid d"
  let ?ys = "map JSON_stringify xs @ [JSON_stringify ?item]"
  let ?s' = "writeFile (Json (JSON_stringify (Arr (xs @ [?item])))) (snd (readItems io s))"
  have tp: "truthy (field d ''price'')"
    using assms(1,2,3) by (simp add: create_accepts_def price_truthy)
  have c: "handleCreateItem rt io uuid (Some d) s =
      (sendJsonResponse 201 True ''Item created successfully.'' ?item, ?s')"
    using handleCreateItem_accepted [OF assms(2) tp assms(4,6)] .
  have obj: "is_object ?item" by (simp add: created_item_def)
  have fin: "is_finite (price_number rt (field d ''price''))"
    using assms(1,2) by (simp add: create_accepts_def parseFloat_finite)
  have num: "price_number rt (Num n) = n" for n
    by (simp add: price_number_def parseFloat_def)
  have dat: "data (fst (handleCreateItem rt io uuid (Some d) s)) = JSON_stringify ?item"
    using c obj by (simp add: data_sendJsonResponse_object del: JSON_stringify.simps)
  have all: "list_all is_object (xs @ [?item])" using assms(5) obj by simp
  have js: "JSON_stringify (Arr (xs @ [?item])) = Arr ?ys"
    using JSON_stringify_objects [OF all] by simp
  have d': "doc ?s' = Some (Json (Arr ?ys))"
    unfolding js by (simp add: writeFile_def)
  have objs: "list_all is_object ?ys"
    using assms(5) obj by (simp add: list_all_iff)
  have "\<forall>y\<in>set (map JSON_stringify xs). \<not> field y ''id'' = Str uuid"
    using assms(8) by (auto simp: field_JSON_stringify)
  moreover have "field (JSON_stringify ?item) ''id'' = Str uuid"
    by (simp add: field_JSON_stringify created_item_def field_newItem del: JSON_stringify.simps)
  ultimately have "find (\<lambda>x. field x ''id'' = Str uuid) ?ys = Some (JSON_stringify ?item)"
    by (rule find_append_last)
  then have g: "handleGetOneItem io' uuid ?s' =
      (sendJsonResponse 200 True ''Successfully retrieved item.'' (JSON_stringify ?item), ?s')"
    using handleGetOneItem_found [OF d' objs assms(9)] by simp
  have gd: "data (fst (handleGetOneItem io' uuid ?s')) = JSON_stringify ?item"
    using g obj
    by (simp add: data_sendJsonResponse_object JSON_stringify_idem del: JSON_stringify.simps)
  have s': "snd (handleCreateItem rt io uuid (Some d) s) = ?s'" using c by simp
  have st: "status (fst (handleCreateItem rt io uuid (Some d) s)) = 201" using c by simp
  show ?thesis
    unfolding s' dat gd
    using g fin st assms(7) num
    by (auto simp: field_JSON_stringify created_item_def field_newItem JSON_stringify_Num_finite
        simp del: JSON_stringify.simps)
qed

text \<open>
  C5. Every valid payload is to be created and then fetched by its id. The payload with
  the name X, the price 0 and the size m is valid by the specification's rule (a name
  that is not empty, a finite price that is not negative, a size in the enumeration),
  but \<^verbatim>\<open>!newItemData.price\<close> is true for the number 0: create answers 400 with the
  message of a missing field and persists nothing, and getting the item by the id
  that would have been drawn answers 404.
\<close>

theorem create_zero_price_not_created:
  "spec_validateForCreate example_runtime
      (Obj [(''name'', Str ''X''), (''price'', Num (Fin 0)), (''size'', Str ''m'')])
   \<and> status (fst (handleCreateItem example_runtime io_ok ''u1''
        (Some (Obj [(''name'', Str ''X''), (''price'', Num (Fin 0)), (''size'', Str ''m'')]))
        empty_fs)) = 400
   \<and> message (fst (handleCreateItem example_runtime io_ok ''u1''
        (Some (Obj [(''name'', Str ''X''), (''price'', Num (Fin 0)), (''size'', Str ''m'')]))
        empty_fs)) = ''Missing required fields: name, price, and size are mandatory.''
   \<and> snd (handleCreateItem example_runtime io_ok ''u1''
        (Some (Obj [(''name'', Str ''X''), (''price'', Num (Fin 0)), (''size'', Str ''m'')]))
        empty_fs) = empty_fs
   \<and> status (fst (handleGetOneItem io_ok ''u1'' (snd (handleCreateItem example_runtime io_ok ''u1''
        (Some (Obj [(''name'', Str ''X''), (''price'', Num (Fin 0)), (''size'', Str ''m'')]))
        empty_fs)))) = 404"
  by code_simp

section \<open>What update leaves as it was\<close>

text \<open>
  C6. For a persisted collection that is JSON (as every document that the server wrote
  is) and an update that answers 200: the item changed is the first one with the id;
  the persisted collection is the old one with that item replaced by the item in the
  response, so every other item is unchanged; the item keeps its id; and every field
  that the payload does not give (and every field other than name, price and size) has
  the value it had. For the item with name A, price 1 and size s, an update with the
  price 2 alone gives name A, price 2 and size s under the same id.
\<close>

theorem update_frame:
  assumes "doc s = Some (Json (Arr xs))" and "list_all is_json xs"
    and "status (fst (handleUpdateItem rt io itemId (Some d) s)) = 200"
  shows "\<exists>i. i < length xs \<and> field (xs ! i) ''id'' = Str itemId
      \<and> (\<forall>j<i. field (xs ! j) ''id'' \<noteq> Str itemId)
      \<and> doc (snd (handleUpdateItem rt io itemId (Some d) s)) =
          Some (Json (Arr (xs[i := data (fst (handleUpdateItem rt io itemId (Some d) s))])))
      \<and> field (data (fst (handleUpdateItem rt io itemId (Some d) s))) ''id'' = Str itemId
      \<and> (\<forall>k. k \<notin> {''name'', ''price'', ''size''} \<or> field d k = Undefined \<longrightarrow>
            field (data (fst (handleUpdateItem rt io itemId (Some d) s))) k = field (xs ! i) k)"
proof -
  from handleUpdateItem_200 [OF assms(3)] obtain xs' i where
    rd': "fst (readItems io s) = Arr xs'" and fi': "findIndex itemId xs' = Inr (Some i)"
    and d: "d \<noteq> Undefined" "d \<noteq> Null" and acc: "update_accepts rt d" and w: "write_ok io"
    by blast
  have "xs' \<noteq> []" using fi' by auto
  then have "xs' = xs" using readItems_doc_cases [OF assms(1), of io] rd' by auto
  with rd' fi' have rd: "fst (readItems io s) = Arr xs" and fi: "findIndex itemId xs = Inr (Some i)"
    by simp_all
  let ?item = "updated_item rt d (xs ! i)"
  note fs = findIndex_Some [OF fi]
  have obj: "is_object (xs ! i)" and il: "i < length xs" using fs by simp_all
  have js: "is_json (xs ! i)" using assms(2) il by (simp add: list_all_length)
  have u: "handleUpdateItem rt io itemId (Some d) s =
       (sendJsonResponse 200 True ''Item updated successfully.'' ?item,
        writeFile (Json (JSON_stringify (Arr (xs[i := ?item])))) s)"
    using handleUpdateItem_accepted [OF rd fi d acc w] .
  have dat: "data (fst (handleUpdateItem rt io itemId (Some d) s)) = JSON_stringify ?item"
    using u obj by (simp add: data_sendJsonResponse_object del: JSON_stringify.simps)
  have dc: "doc (snd (handleUpdateItem rt io itemId (Some d) s)) =
      Some (Json (Arr (xs[i := JSON_stringify ?item])))"
    using u JSON_stringify_list_update [OF assms(2), of ?item i] obj
    by (simp add: writeFile_def del: JSON_stringify.simps)
  have keep: "field (JSON_stringify ?item) k = field (xs ! i) k"
    if "k \<notin> {''name'', ''price'', ''size''} \<or> field d k = Undefined" for k
  proof -
    have "field ?item k = field (xs ! i) k"
    proof (cases "k \<in> {''name'', ''price'', ''size''}")
      case True
      with that have "field d k = Undefined" by blast
      with True show ?thesis
        using field_updated_item(1-3) [OF obj, of rt d] by auto
    next
      case False
      then show ?thesis using field_updated_item(4) [OF obj] by blast
    qed
    then show ?thesis
      using is_json_field [OF js, of k] by (simp add: field_JSON_stringify del: JSON_stringify.simps)
  qed
  have "field (JSON_stringify ?item) ''id'' = Str itemId"
    using keep [of "''id''"] fs by simp
  then show ?thesis
    using il fs keep unfolding dat dc by blast
qed

theorem update_frame_witness:
  "doc two_items_fs = Some (Json (Arr [item_A, item_B])) \<and> list_all is_json [item_A, item_B]
   \<and> status (fst (handleUpdateItem example_runtime io_ok ''a1''
        (Some (Obj [(''price'', Num (Fin 2))])) two_items_fs)) = 200
   \<and> data (fst (handleUpdateItem example_runtime io_ok ''a1''
        (Some (Obj [(''price'', Num (Fin 2))])) two_items_fs)) =
      Obj [(''id'', Str ''a1''), (''name'', Str ''A''), (''price'', Num (Fin 2)),
           (''size'', Str ''s'')]
   \<and> doc (snd (handleUpdateItem example_runtime io_ok ''a1''
        (Some (Obj [(''price'', Num (Fin 2))])) two_items_fs)) =
      Some (Json (Arr [Obj [(''id'', Str ''a1''), (''name'', Str ''A''),
        (''price'', Num (Fin 2)), (''size'', Str ''s'')], item_B]))"
proof -
  let ?d = "Obj [(''price'', Num (Fin 2))]"
  let ?r = "handleUpdateItem example_runtime io_ok ''a1'' (Some ?d) two_items_fs"
  have dc: "doc two_items_fs = Some (Json (Arr [item_A, item_B]))"
    by (simp add: two_items_fs_def)
  have js: "list_all is_json [item_A, item_B]"
    by (simp add: item_A_def item_B_def)
  have st: "status (fst ?r) = 200"
    by code_simp
  have dt: "data (fst ?r) =
      Obj [(''id'', Str ''a1''), (''name'', Str ''A''), (''price'', Num (Fin 2)),
           (''size'', Str ''s'')]"
    by code_simp
  have b: "field item_B ''id'' \<noteq> Str ''a1''"
    by (simp add: field_def item_B_def)
  from update_frame [OF dc js st] obtain i where
    i: "i < length [item_A, item_B]" "field ([item_A, item_B] ! i) ''id'' = Str ''a1''"
    and d: "doc (snd ?r) = Some (Json (Arr ([item_A, item_B][i := data (fst ?r)])))"
    by blast
  from i b have "i = 0" by (cases i) auto
  with d dt have "doc (snd ?r) =
      Some (Json (Arr [Obj [(''id'', Str ''a1''), (''name'', Str ''A''),
        (''price'', Num (Fin 2)), (''size'', Str ''s'')], item_B]))"
    by simp
  then show ?thesis using dc js st dt by simp
qed

section \<open>Deletion\<close>

text \<open>
  C7. For a document that is an array of items (objects), with the reads and the write
  of the file system succeeding: when an item of the collection has the id, delete
  answers 200 with \<^verbatim>\<open>data\<close> null, the persisted collection is the old one without
  the items of that id, no item in it has the id, and a get of the id afterwards
  answers 404; when no item has the id, delete answers 404 and the file system state
  is what it was.
\<close>

theorem delete_finality:
  assumes "doc s = Some (Json (Arr xs))" and "list_all is_object xs"
    and "read_ok io" and "write_ok io" and "read_ok io'"
  shows "((\<exists>x\<in>set xs. field x ''id'' = Str itemId) \<longrightarrow>
            status (fst (handleDeleteItem io itemId s)) = 200
          \<and> data (fst (handleDeleteItem io itemId s)) = Null
          \<and> doc (snd (handleDeleteItem io itemId s)) =
              Some (Json (Arr (map JSON_stringify
                (filter (\<lambda>x. field x ''id'' \<noteq> Str itemId) xs))))
          \<and> (\<forall>y\<in>set (map JSON_stringify (filter (\<lambda>x. field x ''id'' \<noteq> Str itemId) xs)).
                field y ''id'' \<noteq> Str itemId)
          \<and> status (fst (handleGetOneItem io' itemId (snd (handleDeleteItem io itemId s)))) = 404)
       \<and> ((\<forall>x\<in>set xs. field x ''id'' \<noteq> Str itemId) \<longrightarrow>
            status (fst (handleDeleteItem io itemId s)) = 404
          \<and> snd (handleDeleteItem io itemId s) = s)"
proof (intro conjI impI)
  assume p: "\<exists>x\<in>set xs. field x ''id'' = Str itemId"
  let ?ys = "map JSON_stringify (filter (\<lambda>x. field x ''id'' \<noteq> Str itemId) xs)"
  let ?s' = "writeFile (Json (Arr ?ys)) s"
  have d: "handleDeleteItem io itemId s =
      (sendJsonResponse 200 True ''Item deleted successfully.'' Null, ?s')"
    using handleDeleteItem_present [OF assms(1-4) p] .
  show "status (fst (handleDeleteItem io itemId s)) = 200" using d by simp
  show "data (fst (handleDeleteItem io itemId s)) = Null"
    using d by (simp add: sendJsonResponse_def)
  show "doc (snd (handleDeleteItem io itemId s)) = Some (Json (Arr ?ys))"
    using d by (simp add: writeFile_def)
  show none: "\<forall>y\<in>set ?ys. field y ''id'' \<noteq> Str itemId"
    by (auto simp: field_JSON_stringify)
  have "list_all is_object ?ys" using assms(2) by (simp add: list_all_iff)
  moreover have "doc ?s' = Some (Json (Arr ?ys))" by (simp add: writeFile_def)
  ultimately have "handleGetOneItem io' itemId ?s' = (not_found itemId, ?s')"
    using handleGetOneItem_absent [of ?s' ?ys io' itemId] assms(5) none by blast
  then show "status (fst (handleGetOneItem io' itemId (snd (handleDeleteItem io itemId s)))) = 404"
    using d by (simp add: not_found_def)
next
  assume a: "\<forall>x\<in>set xs. field x ''id'' \<noteq> Str itemId"
  have d: "handleDeleteItem io itemId s = (not_found itemId, s)"
    using handleDeleteItem_absent [OF assms(1-3) a] .
  show "status (fst (handleDeleteItem io itemId s)) = 404" using d by (simp add: not_found_def)
  show "snd (handleDeleteItem io itemId s) = s" using d by simp
qed

theorem delete_finality_witness:
  "doc two_items_fs = Some (Json (Arr [item_A, item_B]))
   \<and> list_all is_object [item_A, item_B] \<and> read_ok io_ok \<and> write_ok io_ok
   \<and> field item_A ''id'' = Str ''a1''
   \<and> status (fst (handleDeleteItem io_ok ''a1'' two_items_fs)) = 200
   \<and> data (fst (handleDeleteItem io_ok ''a1'' two_items_fs)) = Null
   \<and> doc (snd (handleDeleteItem io_ok ''a1'' two_items_fs)) = Some (Json (Arr [item_B]))
   \<and> status (fst (handleGetOneItem io_ok ''a1''
         (snd (handleDeleteItem io_ok ''a1'' two_items_fs)))) = 404
   \<and> field item_A ''id'' \<noteq> Str ''zz'' \<and> field item_B ''id'' \<noteq> Str ''zz''
   \<and> status (fst (handleDeleteItem io_ok ''zz'' two_items_fs)) = 404
   \<and> snd (handleDeleteItem io_ok ''zz'' two_items_fs) = two_items_fs"
proof -
  have d: "doc two_items_fs = Some (Json (Arr [item_A, item_B]))"
    by (simp add: two_items_fs_def)
  have o: "list_all is_object [item_A, item_B]"
    by (simp add: is_object_def item_A_def item_B_def)
  have io: "read_ok io_ok" "write_ok io_ok"
    by (simp_all add: io_ok_def)
  have p: "\<exists>x\<in>set [item_A, item_B]. field x ''id'' = Str ''a1''"
    by (simp add: field_def item_A_def)
  have a: "\<forall>x\<in>set [item_A, item_B]. field x ''id'' \<noteq> Str ''zz''"
    by (simp add: field_def item_A_def item_B_def)
  have r: "map JSON_stringify (filter (\<lambda>x. field x ''id'' \<noteq> Str ''a1'') [item_A, item_B])
      = [item_B]"
    by (simp add: field_def item_A_def item_B_def)
  note t1 = delete_finality [OF d o io io(1), of "''a1''"]
  note t2 = delete_finality [OF d o io io(1), of "''zz''"]
  from t1 p have c1: "status (fst (handleDeleteItem io_ok ''a1'' two_items_fs)) = 200
     \<and> data (fst (handleDeleteItem io_ok ''a1'' two_items_fs)) = Null
     \<and> doc (snd (handleDeleteItem io_ok ''a1'' two_items_fs)) = Some (Json (Arr [item_B]))
     \<and> status (fst (handleGetOneItem io_ok ''a1''
         (snd (handleDeleteItem io_ok ''a1'' two_items_fs)))) = 404"
    unfolding r by blast
  from t2 a have c2: "status (fst (handleDeleteItem io_ok ''zz'' two_items_fs)) = 404
     \<and> snd (handleDeleteItem io_ok ''zz'' two_items_fs) = two_items_fs"
    by blast
  have f: "field item_A ''id'' = Str ''a1''"
    by (simp add: field_def item_A_def)
  show ?thesis
    using d o io f a c1 c2 by simp
qed

section \<open>A document that is JSON and not an array\<close>

text \<open>
  \<^verbatim>\<open>readItems\<close> returns a value for every state of the file system (its errors are
  caught inside). It returns the empty array when the document is absent, empty or not
  JSON, or cannot be read, and it creates an absent document as the empty array when
  the write succeeds.
\<close>

lemma readItems_degrades:
  assumes "doc s = None \<or> doc s = Some EmptyText \<or> doc s = Some Malformed \<or> \<not> read_ok io"
  shows "fst (readItems io s) = Arr []"
  using assms
  by (auto simp: readItems_def readItems_try_def split: option.splits document.splits)

lemma readItems_creates:
  "doc s = None \<Longrightarrow> init_ok io \<Longrightarrow> doc (snd (readItems io s)) = Some (Json (Arr []))"
  by (simp add: readItems_def readItems_try_def writeFile_def)

text \<open>
  C8. \<^verbatim>\<open>readItems\<close> is to return an empty collection for a document that cannot be
  read as a JSON array. For the document \<^verbatim>\<open>{}\<close> it returns the object instead, and
  the request that called it fails: \<^verbatim>\<open>GET /items/a1\<close> is answered 500, and
  \<^verbatim>\<open>GET /items\<close> sends the object as the collection.
\<close>

theorem readItems_returns_non_array:
  "readItems io_ok \<lparr>doc = Some (Json (Obj [])), writes = 1\<rparr>
     = (Obj [], \<lparr>doc = Some (Json (Obj [])), writes = 1\<rparr>)
   \<and> status (fst (handleGetOneItem io_ok ''a1'' \<lparr>doc = Some (Json (Obj [])), writes = 1\<rparr>))
     = 500
   \<and> data (fst (handleGetAllItems io_ok \<lparr>doc = Some (Json (Obj [])), writes = 1\<rparr>)) = Obj []"
  by code_simp

section \<open>What the router answers\<close>

lemma split_no_sep: "c \<notin> set xs \<Longrightarrow> split c xs = [xs]"
  by (induction xs) auto

lemma url_parts_items: "url_parts ''/items'' = (Some ''items'', None)"
  by (simp add: url_parts_def)

lemma url_parts_item_path:
  assumes "spec_item_path u"
  shows "url_parts u = (Some ''items'', Some (drop 7 u))"
proof -
  from assms have u: "u = ''/items/'' @ drop 7 u"
    by (metis append_take_drop_id spec_item_path_def)
  from assms have "split CHR ''/'' (drop 7 u) = [drop 7 u]"
    by (simp add: spec_item_path_def split_no_sep)
  then have "split CHR ''/'' (''/items/'' @ drop 7 u) = [[], ''items'', drop 7 u]"
    by simp
  with u have "split CHR ''/'' u = [[], ''items'', drop 7 u]" by simp
  then show ?thesis using assms by (simp add: url_parts_def spec_item_path_def)
qed

lemma apiServer_404:
  "fst (url_parts (url req)) \<noteq> Some ''items'' \<Longrightarrow>
   apiServer rt io uuid req s =
     (\<lparr>status = 404, success = False, message = ''API Endpoint Not Found.'', data = Null\<rparr>, s)"
  by (cases "url_parts (url req)") (simp add: apiServer_def sendJsonResponse_def)

lemma apiServer_405:
  "fst (url_parts (url req)) = Some ''items'' \<Longrightarrow>
   \<not> route_known (http_method req) (snd (url_parts (url req)) \<noteq> None) \<Longrightarrow>
   apiServer rt io uuid req s =
     (\<lparr>status = 405, success = False,
       message = ''Method Not Allowed or Invalid API Endpoint.'', data = Null\<rparr>, s)"
  by (cases "url_parts (url req)")
    (auto simp: apiServer_def sendJsonResponse_def route_known_def)

lemma apiServer_405_spec:
  assumes "url req = ''/items'' \<or> spec_item_path (url req)"
    and "\<not> spec_recognized (http_method req) (url req)"
  shows "apiServer rt io uuid req s =
     (\<lparr>status = 405, success = False,
       message = ''Method Not Allowed or Invalid API Endpoint.'', data = Null\<rparr>, s)"
proof (cases "url req = ''/items''")
  case True
  then have "url_parts (url req) = (Some ''items'', None)" by (simp add: url_parts_items)
  moreover have "\<not> route_known (http_method req) False"
    using assms(2) True by (auto simp: spec_recognized_def route_known_def)
  ultimately show ?thesis using apiServer_405 [of req rt io uuid s] by simp
next
  case False
  with assms(1) have p: "spec_item_path (url req)" by simp
  then have "url_parts (url req) = (Some ''items'', Some (drop 7 (url req)))"
    by (rule url_parts_item_path)
  moreover have "\<not> route_known (http_method req) True"
    using assms(2) p by (auto simp: spec_recognized_def route_known_def)
  ultimately show ?thesis using apiServer_405 [of req rt io uuid s] by simp
qed

text \<open>
  C9, as the specification states it, fails: \<^verbatim>\<open>GET /items/a/b\<close> is a path under
  \<^verbatim>\<open>/items\<close> and none of the five operations, and the server does not answer 405: it
  serves the request as \<^verbatim>\<open>GET /items/a\<close> and, the collection being empty, answers 404.
\<close>

theorem routing_extra_segment_counterexample:
  "spec_under_items ''/items/a/b'' \<and> \<not> spec_recognized ''GET'' ''/items/a/b''
   \<and> apiServer example_runtime io_ok ''u1''
         \<lparr>http_method = ''GET'', url = ''/items/a/b'', body = None\<rparr> empty_fs
       = handleGetOneItem io_ok ''a'' empty_fs
   \<and> status (fst (apiServer example_runtime io_ok ''u1''
         \<lparr>http_method = ''GET'', url = ''/items/a/b'', body = None\<rparr> empty_fs)) \<noteq> 405"
  by code_simp

text \<open>
  C9, amended. The router looks at the verb and at the first two segments of the URL
  that are not empty, and ignores the segments after them. A URL whose first segment
  is not \<^verbatim>\<open>items\<close> is answered 404. A URL whose first segment is \<^verbatim>\<open>items\<close> is answered
  405 unless the verb is GET, or POST without a second segment, or PUT or DELETE with
  one; in particular the paths \<^verbatim>\<open>/items\<close> and \<^verbatim>\<open>/items/{id}\<close> are answered 405 for
  every verb that is not one of the five operations. Both answers carry the envelope
  with \<^verbatim>\<open>success\<close> false, a message and \<^verbatim>\<open>data\<close> null, and leave the store as it was.
\<close>

theorem routing_by_segments:
  "(fst (url_parts (url req)) \<noteq> Some ''items'' \<longrightarrow>
      apiServer rt io uuid req s =
        (\<lparr>status = 404, success = False, message = ''API Endpoint Not Found.'',
          data = Null\<rparr>, s))
   \<and> (fst (url_parts (url req)) = Some ''items''
       \<and> \<not> route_known (http_method req) (snd (url_parts (url req)) \<noteq> None) \<longrightarrow>
      apiServer rt io uuid req s =
        (\<lparr>status = 405, success = False,
          message = ''Method Not Allowed or Invalid API Endpoint.'', data = Null\<rparr>, s))
   \<and> ((url req = ''/items'' \<or> spec_item_path (url req))
       \<and> \<not> spec_recognized (http_method req) (url req) \<longrightarrow>
      apiServer rt io uuid req s =
        (\<lparr>status = 405, success = False,
          message = ''Method Not Allowed or Invalid API Endpoint.'', data = Null\<rparr>, s))"
  using apiServer_404 [of req rt io uuid s] apiServer_405 [of req rt io uuid s]
    apiServer_405_spec [of req rt io uuid s]
  by blast

theorem routing_by_segments_witness:
  "fst (url_parts ''/stock/a1'') \<noteq> Some ''items''
   \<and> apiServer example_runtime io_ok ''u1''
        \<lparr>http_method = ''GET'', url = ''/stock/a1'', body = None\<rparr> one_item_fs =
        (\<lparr>status = 404, success = False, message = ''API Endpoint Not Found.'',
          data = Null\<rparr>, one_item_fs)
   \<and> fst (url_parts ''/items/a1/b'') = Some ''items''
   \<and> \<not> route_known ''POST'' (snd (url_parts ''/items/a1/b'') \<noteq> None)
   \<and> apiServer example_runtime io_ok ''u1''
        \<lparr>http_method = ''POST'', url = ''/items/a1/b'', body = None\<rparr> one_item_fs =
        (\<lparr>status = 405, success = False,
          message = ''Method Not Allowed or Invalid API Endpoint.'', data = Null\<rparr>, one_item_fs)
   \<and> spec_item_path ''/items/a1'' \<and> \<not> spec_recognized ''PATCH'' ''/items/a1''
   \<and> apiServer example_runtime io_ok ''u1''
        \<lparr>http_method = ''PATCH'', url = ''/items/a1'', body = None\<rparr> one_item_fs =
        (\<lparr>status = 405, success = False,
          message = ''Method Not Allowed or Invalid API Endpoint.'', data = Null\<rparr>, one_item_fs)"
proof -
  have a: "fst (url_parts ''/stock/a1'') \<noteq> Some ''items''"
    by code_simp
  have b: "fst (url_parts ''/items/a1/b'') = Some ''items''
      \<and> \<not> route_known ''POST'' (snd (url_parts ''/items/a1/b'') \<noteq> None)"
    by code_simp
  have c: "spec_item_path ''/items/a1'' \<and> \<not> spec_recognized ''PATCH'' ''/items/a1''"
    by code_simp
  show ?thesis
    using a b c
      routing_by_segments [of "\<lparr>http_method = ''GET'', url = ''/stock/a1'', body = None\<rparr>"
        example_runtime io_ok "''u1''" one_item_fs]
      routing_by_segments [of "\<lparr>http_method = ''POST'', url = ''/items/a1/b'', body = None\<rparr>"
        example_runtime io_ok "''u1''" one_item_fs]
      routing_by_segments [of "\<lparr>http_method = ''PATCH'', url = ''/items/a1'', body = None\<rparr>"
        example_runtime io_ok "''u1''" one_item_fs]
    by simp
qed

section \<open>A request answered 400 writes nothing\<close>

lemma create_400_unchanged:
  assumes "status (fst (handleCreateItem rt io uuid b s)) = 400"
  shows "snd (handleCreateItem rt io uuid b s) = s"
proof (cases rule: createItem_try_cases [of b rt io uuid s])
  case malformed
  then show ?thesis using handleCreateItem_Inl by fastforce
next
  case (thrown d e)
  then show ?thesis using handleCreateItem_Inl by fastforce
next
  case (invalid d r)
  then show ?thesis using handleCreateItem_Inr by fastforce
next
  case (not_array d n p l e)
  then show ?thesis
    using handleCreateItem_Inl [OF not_array(4)] assms by (auto split: if_splits)
next
  case (write_failed d n p l xs)
  then show ?thesis using handleCreateItem_Inl [OF write_failed(5)] assms by auto
next
  case (created d n p l xs)
  then show ?thesis using handleCreateItem_Inr [OF created(5)] assms by auto
qed

lemma update_400_unchanged:
  assumes "status (fst (handleUpdateItem rt io i b s)) = 400"
  shows "snd (handleUpdateItem rt io i b s) = s"
proof (cases rule: updateItem_try_cases [of b rt io i s])
  case malformed
  then show ?thesis using handleUpdateItem_Inl by fastforce
next
  case (not_array d e)
  then show ?thesis
    using handleUpdateItem_Inl [OF not_array(3)] assms by (auto split: if_splits)
next
  case (thrown_find d xs e)
  then show ?thesis
    using handleUpdateItem_Inl [OF thrown_find(4)] assms by (auto split: if_splits)
next
  case (absent d xs)
  then show ?thesis
    using handleUpdateItem_Inr [OF absent(4)] assms by (simp add: not_found_def)
next
  case (thrown_assign d xs i e)
  then show ?thesis using handleUpdateItem_Inl by fastforce
next
  case (thrown_validate d xs i item' e)
  then show ?thesis using handleUpdateItem_Inl by fastforce
next
  case (invalid d xs i item' r)
  then show ?thesis using handleUpdateItem_Inr by fastforce
next
  case (write_failed d xs i item')
  then show ?thesis using handleUpdateItem_Inl by fastforce
next
  case (updated d xs j item')
  then show ?thesis using handleUpdateItem_Inr [OF updated(7)] assms by auto
qed

text \<open>
  C10. Whenever create or update answers 400, for a body that is not JSON or for a
  field that fails validation, the file system state after the request is the state
  before it: the document is what it was and no write was done. (Update changes its
  copy of the item before it validates, and returns before \<^verbatim>\<open>writeItems\<close>.)
\<close>

theorem validation_failure_writes_nothing:
  "(status (fst (handleCreateItem rt io uuid b s)) = 400
      \<longrightarrow> snd (handleCreateItem rt io uuid b s) = s)
   \<and> (status (fst (handleUpdateItem rt io itemId b' s)) = 400
      \<longrightarrow> snd (handleUpdateItem rt io itemId b' s) = s)"
  using create_400_unchanged update_400_unchanged by blast

theorem validation_failure_writes_nothing_witness:
  "status (fst (handleCreateItem example_runtime io_ok ''u1'' None one_item_fs)) = 400
   \<and> snd (handleCreateItem example_runtime io_ok ''u1'' None one_item_fs) = one_item_fs
   \<and> status (fst (handleUpdateItem example_runtime io_ok ''a1''
         (Some (Obj [(''size'', Str ''xl'')])) one_item_fs)) = 400
   \<and> snd (handleUpdateItem example_runtime io_ok ''a1''
         (Some (Obj [(''size'', Str ''xl'')])) one_item_fs) = one_item_fs"
proof -
  have c: "status (fst (handleCreateItem example_runtime io_ok ''u1'' None one_item_fs)) = 400"
    by code_simp
  have u: "status (fst (handleUpdateItem example_runtime io_ok ''a1''
         (Some (Obj [(''size'', Str ''xl'')])) one_item_fs)) = 400"
    by code_simp
  show ?thesis
    using c u validation_failure_writes_nothing [of example_runtime io_ok "''u1''" None
        one_item_fs "''a1''" "Some (Obj [(''size'', Str ''xl'')])"]
    by simp
qed

end
